theory Spec2Isabelle
  imports Main
begin

section \<open>Values shared by every module\<close>

text \<open>
  Every \<^verbatim>\<open>throw\<close> and every rejected promise in the extension carries an
  \<^verbatim>\<open>Error\<close> object (\<^verbatim>\<open>new Error(msg)\<close>, or the error a browser API rejects with);
  the orchestrator only ever reads its \<^verbatim>\<open>message\<close>.  A thrown value is therefore
  modelled by that message, and a computation that may throw returns a sum whose left
  injection is the error.
\<close>

datatype js_error = Error string

type_synonym 'a outcome = "js_error + 'a"

text \<open>The execution context handed to \<^verbatim>\<open>executeEnabledModules\<close> by the background worker:
  \<^verbatim>\<open>{ tabId, customerName }\<close>.\<close>

record exec_context =
  tabId :: nat
  customerName :: string

text \<open>
  The objects passed to the progress callback.  \<^verbatim>\<open>MODULE_STARTED\<close> is built by the
  orchestrator (\<^verbatim>\<open>moduleId, moduleName, current, total\<close>); \<^verbatim>\<open>MODULE_PROGRESS\<close> is what a
  module emits through \<^verbatim>\<open>context.progressCallback\<close>
  (\<^verbatim>\<open>moduleId, moduleName, percentage, statusText, current, total\<close>).
\<close>

datatype progress =
    MODULE_STARTED string string nat nat
  | MODULE_PROGRESS string string nat string nat nat

text \<open>The verdict of \<^verbatim>\<open>validate()\<close>: \<^verbatim>\<open>{ valid, message? }\<close>.\<close>

record validation =
  valid :: bool
  message :: "string option"

section \<open>The module contract (base-module.js)\<close>

text \<open>
  A module instance, as the orchestrator sees it during one run.  The fields
  \<^verbatim>\<open>name\<close>, \<^verbatim>\<open>description\<close> and \<^verbatim>\<open>isEnabled\<close> are the ones the
  \<^verbatim>\<open>BaseModule\<close> constructor sets.  Each method is represented by what a call of it does:
  \<^item> \<^verbatim>\<open>initialize()\<close> returns or throws;
  \<^item> \<^verbatim>\<open>validate()\<close> returns a verdict or throws;
  \<^item> \<^verbatim>\<open>scrape(context)\<close> emits progress updates through
    \<^verbatim>\<open>context.progressCallback\<close> and then resolves with raw data or rejects;
  \<^item> \<^verbatim>\<open>formatData(data)\<close> returns the report text or throws (the base class throws);
  \<^item> \<^verbatim>\<open>getJsonPayload\<close> and \<^verbatim>\<open>getDateFormat\<close> are looked up with
    \<^verbatim>\<open>typeof ... === 'function'\<close>, so they may be absent (\<open>None\<close>);
  \<^item> \<^verbatim>\<open>getFilename()\<close> takes no argument and returns a string.
  Raw data and JSON payloads are both plain JavaScript values; \<open>'d\<close> is their type.
  A run calls each method of a module once, unless an identifier was enabled twice; the
  two calls are then taken to behave alike.  Whatever a method reads besides its
  arguments (the page, the clock) is fixed in what the field says the call does.
\<close>

record 'd module =
  name :: string
  description :: string
  isEnabled :: bool
  initialize :: "unit outcome"
  validate :: "validation outcome"
  scrape :: "exec_context \<Rightarrow> progress list \<times> 'd outcome"
  formatData :: "'d \<Rightarrow> string outcome"
  getJsonPayload :: "('d \<Rightarrow> 'd outcome) option"
  getFilename :: string
  getDateFormat :: "string option"

definition enable :: "'d module \<Rightarrow> 'd module" where
  "enable m = m\<lparr>isEnabled := True\<rparr>"

definition disable :: "'d module \<Rightarrow> 'd module" where
  "disable m = m\<lparr>isEnabled := False\<rparr>"

section \<open>The registry (module-manager.js)\<close>

text \<open>
  \<^verbatim>\<open>this.modules\<close> is a \<^verbatim>\<open>Map\<close> from identifier to module instance and
  \<^verbatim>\<open>this.executionOrder\<close> an array of identifiers.  Console output is returned next to
  the new state.
\<close>

record 'd module_manager =
  modules :: "string \<rightharpoonup> 'd module"
  executionOrder :: "string list"

datatype console = Log string | Warn string

definition newModuleManager :: "'d module_manager" where
  "newModuleManager = \<lparr>modules = Map.empty, executionOrder = []\<rparr>"

definition registerModule ::
  "string \<Rightarrow> 'd module \<Rightarrow> 'd module_manager \<Rightarrow> 'd module_manager \<times> console list" where
  "registerModule id' moduleInstance mgr =
     (mgr\<lparr>modules := (modules mgr)(id' \<mapsto> moduleInstance)\<rparr>,
      (if modules mgr id' \<noteq> None
       then [Warn (''Module '' @ id' @ '' is already registered. Overwriting...'')]
       else []) @
      [Log (''[ModuleManager] Registered module: '' @ id')])"

text \<open>\<^verbatim>\<open>getModule\<close> returns the instance or \<^verbatim>\<open>null\<close> (\<open>None\<close>).\<close>

definition getModule :: "string \<Rightarrow> 'd module_manager \<Rightarrow> 'd module option" where
  "getModule id' mgr = modules mgr id'"

text \<open>The second loop of \<^verbatim>\<open>enableModules\<close>: known identifiers are enabled and appended to
  the execution order, unknown ones only produce a warning.\<close>

fun enableSelected ::
  "string list \<Rightarrow> 'd module_manager \<Rightarrow> 'd module_manager \<times> console list" where
  "enableSelected [] mgr = (mgr, [])"
| "enableSelected (id' # ids) mgr =
     (case modules mgr id' of
        Some m \<Rightarrow>
          (case enableSelected ids
                  (mgr\<lparr>modules := (modules mgr)(id' \<mapsto> enable m),
                        executionOrder := executionOrder mgr @ [id']\<rparr>) of
             (mgr', out) \<Rightarrow> (mgr', Log (''[ModuleManager] Enabled module: '' @ id') # out))
      | None \<Rightarrow>
          (case enableSelected ids mgr of
             (mgr', out) \<Rightarrow> (mgr', Warn (''[ModuleManager] Module not found: '' @ id') # out)))"

definition enableModules ::
  "string list \<Rightarrow> 'd module_manager \<Rightarrow> 'd module_manager \<times> console list" where
  "enableModules moduleIds mgr =
     enableSelected moduleIds
       (mgr\<lparr>modules := (\<lambda>id'. map_option disable (modules mgr id')), executionOrder := []\<rparr>)"

fun collectEnabled :: "(string \<rightharpoonup> 'd module) \<Rightarrow> string list \<Rightarrow> (string \<times> 'd module) list" where
  "collectEnabled ms [] = []"
| "collectEnabled ms (id' # ids) =
     (case ms id' of
        Some m \<Rightarrow> (if isEnabled m then (id', m) # collectEnabled ms ids else collectEnabled ms ids)
      | None \<Rightarrow> collectEnabled ms ids)"

definition getEnabledModules :: "'d module_manager \<Rightarrow> (string \<times> 'd module) list" where
  "getEnabledModules mgr = collectEnabled (modules mgr) (executionOrder mgr)"

section \<open>The orchestrator (module-manager.js, executeEnabledModules)\<close>

text \<open>
  One Module Result.  The success branch builds
  \<^verbatim>\<open>{ moduleId, moduleName, data, filename, success: true, rawData, jsonPayload }\<close>, the
  \<^verbatim>\<open>catch\<close> branch
  \<^verbatim>\<open>{ moduleId, moduleName, data, filename, error, success: false, jsonPayload }\<close>; both add
  \<^verbatim>\<open>dateFormat\<close> when the module has a \<^verbatim>\<open>getDateFormat\<close> method.  A field the object
  literal does not have is \<open>None\<close>.  The structured payload is either the module's own
  payload or the object \<^verbatim>\<open>{ error: message }\<close>.
\<close>

datatype 'd json_payload = ErrorObject string | Payload 'd

record 'd module_result =
  moduleId :: string
  moduleName :: string
  data :: string
  filename :: string
  success :: bool
  error :: "string option"
  rawData :: "'d option"
  jsonPayload :: "'d json_payload"
  dateFormat :: "string option"

text \<open>
  The two callbacks are closures of the caller.  A call may change the caller's state
  \<open>'s\<close> and may throw.
\<close>

type_synonym ('a, 's) callback = "'a \<Rightarrow> 's \<Rightarrow> unit outcome \<times> 's"

text \<open>
  The loop is suspended at every \<^verbatim>\<open>await\<close>; other event handlers of the caller (a
  cancel request, for one) may run then.  What they do to the caller's state is given by a
  function of the suspension point.  The number in a suspension point is the loop's
  \<^verbatim>\<open>current\<close> counter; \<open>AwaitScrape k i\<close> is the suspension of \<^verbatim>\<open>module.scrape\<close> after
  \<open>i\<close> progress updates have been forwarded.
\<close>

datatype await_point =
    AwaitInitialize nat
  | AwaitValidate nat
  | AwaitScrape nat nat
  | AwaitCompletion nat
  | AwaitDelay nat

text \<open>The awaited operations of the loop, in the order they are started.\<close>

datatype step = Initialize string | Validate string | Scrape string | Delay nat

text \<open>\<^verbatim>\<open>if (progressCallback) { progressCallback(update) }\<close>, the body of both the start
  notification and the forwarding closure put into the enriched context.\<close>

definition notify ::
  "(progress, 's) callback option \<Rightarrow> progress \<Rightarrow> 's \<Rightarrow> unit outcome \<times> 's" where
  "notify progressCallback update s =
     (case progressCallback of None \<Rightarrow> (Inr (), s) | Some cb \<Rightarrow> cb update s)"

text \<open>
  The progress updates a module emits while it scrapes go through the forwarding closure
  one by one.  No module of the repository catches what that call throws, so an exception
  of the caller's callback ends \<^verbatim>\<open>scrape\<close> with that exception.
\<close>

fun forward ::
  "(progress, 's) callback option \<Rightarrow> (await_point \<Rightarrow> 's \<Rightarrow> 's) \<Rightarrow> nat \<Rightarrow> nat \<Rightarrow>
   progress list \<Rightarrow> 's \<Rightarrow> unit outcome \<times> 's" where
  "forward progressCallback during k i [] s = (Inr (), during (AwaitScrape k i) s)"
| "forward progressCallback during k i (u # us) s =
     (case notify progressCallback u (during (AwaitScrape k i) s) of
        (Inl e, s') \<Rightarrow> (Inl e, s')
      | (Inr _, s') \<Rightarrow> forward progressCallback during k (Suc i) us s')"

text \<open>\<^verbatim>\<open>validation.message || 'Module validation failed'\<close>\<close>

definition validationMessage :: "validation \<Rightarrow> string" where
  "validationMessage v =
     (case message v of
        None \<Rightarrow> ''Module validation failed''
      | Some msg \<Rightarrow> (if msg = [] then ''Module validation failed'' else msg))"

text \<open>\<^verbatim>\<open>typeof module.getJsonPayload === 'function' ? module.getJsonPayload(data) : data\<close>\<close>

definition jsonPayloadOf :: "'d module \<Rightarrow> 'd \<Rightarrow> 'd outcome" where
  "jsonPayloadOf m d = (case getJsonPayload m of Some f \<Rightarrow> f d | None \<Rightarrow> Inr d)"

definition successResult :: "string \<Rightarrow> 'd module \<Rightarrow> 'd \<Rightarrow> string \<Rightarrow> 'd \<Rightarrow> 'd module_result" where
  "successResult id' m d formattedData payload =
     \<lparr>moduleId = id', moduleName = name m, data = formattedData, filename = getFilename m,
      success = True, error = None, rawData = Some d, jsonPayload = Payload payload,
      dateFormat = getDateFormat m\<rparr>"

definition failureResult :: "string \<Rightarrow> 'd module \<Rightarrow> string \<Rightarrow> 'd module_result" where
  "failureResult id' m msg =
     \<lparr>moduleId = id', moduleName = name m, data = ''Error: '' @ msg, filename = getFilename m,
      success = False, error = Some msg, rawData = None, jsonPayload = ErrorObject msg,
      dateFormat = getDateFormat m\<rparr>"

text \<open>
  The body of the \<^verbatim>\<open>try\<close> block up to the construction of the result: start
  notification, \<^verbatim>\<open>initialize\<close>, \<^verbatim>\<open>validate\<close>, \<^verbatim>\<open>scrape\<close> with the enriched context,
  \<^verbatim>\<open>formatData\<close>, the JSON payload.  The first exception ends it.  The third
  component lists the awaited module methods that were started.
\<close>

definition buildResult :: "string \<Rightarrow> 'd module \<Rightarrow> 'd \<Rightarrow> 'd module_result outcome" where
  "buildResult id' m d =
     (case formatData m d of
        Inl e \<Rightarrow> Inl e
      | Inr formattedData \<Rightarrow>
          (case jsonPayloadOf m d of
             Inl e \<Rightarrow> Inl e
           | Inr payload \<Rightarrow> Inr (successResult id' m d formattedData payload)))"

definition tryModule ::
  "exec_context \<Rightarrow> (progress, 's) callback option \<Rightarrow> (await_point \<Rightarrow> 's \<Rightarrow> 's) \<Rightarrow>
   nat \<Rightarrow> nat \<Rightarrow> string \<times> 'd module \<Rightarrow> 's \<Rightarrow> 'd module_result outcome \<times> 's \<times> step list" where
  "tryModule ctx progressCallback during total' current im s =
     (case im of (id', m) \<Rightarrow>
       (case notify progressCallback (MODULE_STARTED id' (name m) current total') s of
          (Inl e, s0) \<Rightarrow> (Inl e, s0, [])
        | (Inr _, s0) \<Rightarrow>
            (case initialize m of
               Inl e \<Rightarrow> (Inl e, during (AwaitInitialize current) s0, [Initialize id'])
             | Inr _ \<Rightarrow>
                 (case validate m of
                    Inl e \<Rightarrow>
                      (Inl e, during (AwaitValidate current) (during (AwaitInitialize current) s0),
                       [Initialize id', Validate id'])
                  | Inr validation \<Rightarrow>
                      (if \<not> valid validation
                       then (Inl (Error (validationMessage validation)),
                             during (AwaitValidate current) (during (AwaitInitialize current) s0),
                             [Initialize id', Validate id'])
                       else
                         (case forward progressCallback during current 0 (fst (scrape m ctx))
                                 (during (AwaitValidate current)
                                    (during (AwaitInitialize current) s0)) of
                            (Inl e, s3) \<Rightarrow>
                              (Inl e, s3, [Initialize id', Validate id', Scrape id'])
                          | (Inr _, s3) \<Rightarrow>
                              (case snd (scrape m ctx) of
                                 Inl e \<Rightarrow>
                                   (Inl e, s3, [Initialize id', Validate id', Scrape id'])
                               | Inr d \<Rightarrow>
                                   (buildResult id' m d, s3,
                                    [Initialize id', Validate id', Scrape id']))))))))"

text \<open>
  One iteration of the \<^verbatim>\<open>for\<close> loop without the final delay.  After a successful
  \<^verbatim>\<open>try\<close> body the completion callback is awaited inside its own \<^verbatim>\<open>try/catch\<close>, which
  only logs.  In the outer \<^verbatim>\<open>catch\<close> the failure result is built from
  \<^verbatim>\<open>error.message\<close> and the completion callback is awaited with no handler around it:
  what it throws leaves the loop and the whole function.
\<close>

definition runModule ::
  "exec_context \<Rightarrow> (progress, 's) callback option \<Rightarrow> ('d module_result, 's) callback option \<Rightarrow>
   (await_point \<Rightarrow> 's \<Rightarrow> 's) \<Rightarrow> nat \<Rightarrow> nat \<Rightarrow> string \<times> 'd module \<Rightarrow> 's \<Rightarrow>
   'd module_result outcome \<times> 's \<times> step list" where
  "runModule ctx progressCallback completionCallback during total' current im s =
     (case tryModule ctx progressCallback during total' current im s of
        (Inr result, s1, steps) \<Rightarrow>
          (case completionCallback of
             None \<Rightarrow> (Inr result, s1, steps)
           | Some cb \<Rightarrow>
               (case cb result s1 of
                  (_, s2) \<Rightarrow> (Inr result, during (AwaitCompletion current) s2, steps)))
      | (Inl (Error msg), s1, steps) \<Rightarrow>
          (let result = failureResult (fst im) (snd im) msg in
           case completionCallback of
             None \<Rightarrow> (Inr result, s1, steps)
           | Some cb \<Rightarrow>
               (case cb result s1 of
                  (Inl e, s2) \<Rightarrow> (Inl e, during (AwaitCompletion current) s2, steps)
                | (Inr _, s2) \<Rightarrow> (Inr result, during (AwaitCompletion current) s2, steps))))"

text \<open>
  The \<^verbatim>\<open>for\<close> loop: \<^verbatim>\<open>current++\<close>, the iteration, \<^verbatim>\<open>results.push(result)\<close>,
  \<^verbatim>\<open>await delay(500)\<close>.  An exception that leaves an iteration rejects the promise of
  \<^verbatim>\<open>executeEnabledModules\<close>; the results collected so far are not returned.
\<close>

fun runModules ::
  "exec_context \<Rightarrow> (progress, 's) callback option \<Rightarrow> ('d module_result, 's) callback option \<Rightarrow>
   (await_point \<Rightarrow> 's \<Rightarrow> 's) \<Rightarrow> nat \<Rightarrow> nat \<Rightarrow> (string \<times> 'd module) list \<Rightarrow>
   'd module_result list \<Rightarrow> 's \<Rightarrow> 'd module_result list outcome \<times> 's \<times> step list" where
  "runModules ctx progressCallback completionCallback during total' current [] results s =
     (Inr results, s, [])"
| "runModules ctx progressCallback completionCallback during total' current (im # rest) results s =
     (case runModule ctx progressCallback completionCallback during total' (Suc current) im s of
        (Inl e, s1, steps) \<Rightarrow> (Inl e, s1, steps)
      | (Inr result, s1, steps) \<Rightarrow>
          (case runModules ctx progressCallback completionCallback during total' (Suc current) rest
                  (results @ [result]) (during (AwaitDelay (Suc current)) s1) of
             (out, s2, steps') \<Rightarrow> (out, s2, steps @ Delay 500 # steps')))"

definition executeEnabledModules ::
  "'d module_manager \<Rightarrow> exec_context \<Rightarrow> (progress, 's) callback option \<Rightarrow>
   ('d module_result, 's) callback option \<Rightarrow> (await_point \<Rightarrow> 's \<Rightarrow> 's) \<Rightarrow> 's \<Rightarrow>
   'd module_result list outcome \<times> 's \<times> step list" where
  "executeEnabledModules mgr ctx progressCallback completionCallback during s =
     (let enabledModules = getEnabledModules mgr;
          total' = length enabledModules
      in runModules ctx progressCallback completionCallback during total' 0 enabledModules [] s)"

section \<open>Notions used to state the properties of the orchestrator\<close>

text \<open>A callback that returns normally whatever it is given (an absent callback is never
  called).\<close>

definition neverThrows :: "('a, 's) callback option \<Rightarrow> bool" where
  "neverThrows cb = (case cb of None \<Rightarrow> True | Some f \<Rightarrow> (\<forall>x s. fst (f x s) = Inr ()))"

text \<open>
  What the module's own methods make of the \<^verbatim>\<open>try\<close> body when no callback interferes:
  the first of \<^verbatim>\<open>initialize\<close>, \<^verbatim>\<open>validate\<close>, \<^verbatim>\<open>scrape\<close>, \<^verbatim>\<open>formatData\<close>,
  \<^verbatim>\<open>getJsonPayload\<close> that throws decides, and an invalid verdict throws its message.
\<close>

definition attemptModule :: "exec_context \<Rightarrow> string \<times> 'd module \<Rightarrow> 'd module_result outcome" where
  "attemptModule ctx im =
     (case im of (id', m) \<Rightarrow>
       (case initialize m of
          Inl e \<Rightarrow> Inl e
        | Inr _ \<Rightarrow>
            (case validate m of
               Inl e \<Rightarrow> Inl e
             | Inr validation \<Rightarrow>
                 (if \<not> valid validation then Inl (Error (validationMessage validation))
                  else (case snd (scrape m ctx) of
                          Inl e \<Rightarrow> Inl e
                        | Inr d \<Rightarrow> buildResult id' m d)))))"

text \<open>The Module Result a module yields on its own: it depends on the context, the
  identifier and the module, and on nothing else.\<close>

definition moduleResult :: "exec_context \<Rightarrow> string \<times> 'd module \<Rightarrow> 'd module_result" where
  "moduleResult ctx im =
     (case attemptModule ctx im of
        Inr result \<Rightarrow> result
      | Inl (Error msg) \<Rightarrow> failureResult (fst im) (snd im) msg)"

text \<open>The awaited methods of one module that a run starts when no callback throws.\<close>

definition moduleSteps :: "string \<times> 'd module \<Rightarrow> step list" where
  "moduleSteps im =
     (case im of (id', m) \<Rightarrow>
       (case initialize m of
          Inl e \<Rightarrow> [Initialize id']
        | Inr _ \<Rightarrow>
            (case validate m of
               Inl e \<Rightarrow> [Initialize id', Validate id']
             | Inr validation \<Rightarrow>
                 (if \<not> valid validation then [Initialize id', Validate id']
                  else [Initialize id', Validate id', Scrape id']))))"


text \<open>The progress callback throws the message \<open>msg\<close> on some update in some state of the
  caller.\<close>

definition progressThrows :: "(progress, 's) callback option \<Rightarrow> string \<Rightarrow> bool" where
  "progressThrows cb msg =
     (case cb of None \<Rightarrow> False | Some f \<Rightarrow> (\<exists>u s. fst (f u s) = Inl (Error msg)))"

section \<open>The extraction job and its callbacks (background service worker)\<close>

text \<open>
  \<^verbatim>\<open>startExtraction\<close> creates \<^verbatim>\<open>currentExtractionJob\<close> with \<^verbatim>\<open>cancelled: false\<close>,
  sets \<^verbatim>\<open>isExtractionActive\<close> and calls \<^verbatim>\<open>executeEnabledModules\<close> with two closures.
  The state these closures and \<^verbatim>\<open>cancelExtraction\<close> share: the two flags, the closure
  variable \<^verbatim>\<open>completedCount\<close>, the messages sent to the popup and the files handed to
  the download API.
\<close>

datatype popup_message =
    Forwarded progress
  | MODULE_COMPLETED string string "bool option" string nat nat
  | MODULE_ERROR string string string

record 'd job =
  cancelled :: bool
  isExtractionActive :: bool
  completedCount :: nat
  popup :: "popup_message list"
  downloads :: "(string \<times> 'd json_payload) list"

text \<open>\<^verbatim>\<open>cancelExtraction\<close>: the job exists while a run is in flight, so the flag is set.\<close>

definition cancelExtraction :: "'d job \<Rightarrow> 'd job" where
  "cancelExtraction j = j\<lparr>cancelled := True, isExtractionActive := False\<rparr>"

text \<open>\<^verbatim>\<open>sendMessageToPopup\<close> never throws: a failed delivery is caught and logged.\<close>

definition sendMessageToPopup :: "popup_message \<Rightarrow> 'd job \<Rightarrow> 'd job" where
  "sendMessageToPopup msg j = j\<lparr>popup := popup j @ [msg]\<rparr>"

text \<open>The progress closure: forward the update unless the job is cancelled.\<close>

definition jobProgressCallback :: "(progress, 'd job) callback" where
  "jobProgressCallback update j =
     (Inr (), if \<not> cancelled j then sendMessageToPopup (Forwarded update) j else j)"

text \<open>
  The completion closure.  A cancelled job skips everything.  Otherwise the counter is
  incremented; the login-history module only reports to the popup; any other module's JSON
  payload is downloaded to \<^verbatim>\<open>folderName/filename.json\<close> inside a \<^verbatim>\<open>try/catch\<close> that
  turns a download error into a \<^verbatim>\<open>MODULE_ERROR\<close> message.  The download API is a
  parameter: it returns a download id or rejects.  (The closure's fallback for a
  \<^verbatim>\<open>null\<close> payload does not arise: a Module Result always has a payload.  Its branch
  that would store the login-history date format lies behind the return of the
  login-history branch and is never reached.)
\<close>

definition jobCompletionCallback ::
  "string \<Rightarrow> nat \<Rightarrow> (string \<Rightarrow> nat outcome) \<Rightarrow> ('d module_result, 'd job) callback" where
  "jobCompletionCallback folderName totalModules download result j =
     (if cancelled j then (Inr (), j)
      else
        (case j\<lparr>completedCount := Suc (completedCount j)\<rparr> of j1 \<Rightarrow>
          (if moduleId result = ''login-history''
           then (Inr (),
                 sendMessageToPopup
                   (MODULE_COMPLETED (moduleId result) (moduleName result) (Some (success result))
                      ''N/A (CSV download only)'' (completedCount j1) totalModules) j1)
           else
             (case download (folderName @ ''/'' @ filename result @ ''.json'') of
                Inl (Error msg) \<Rightarrow>
                  (Inr (),
                   sendMessageToPopup (MODULE_ERROR (moduleId result) (moduleName result) msg) j1)
              | Inr downloadId \<Rightarrow>
                  (Inr (),
                   sendMessageToPopup
                     (MODULE_COMPLETED (moduleId result) (moduleName result) None
                        (filename result @ ''.json'') (completedCount j1) totalModules)
                     (j1\<lparr>downloads := downloads j1 @
                          [(folderName @ ''/'' @ filename result @ ''.json'',
                            jsonPayload result)]\<rparr>))))))"

text \<open>A fresh job, as \<^verbatim>\<open>startExtraction\<close> creates it.\<close>

definition newJob :: "'d job" where
  "newJob = \<lparr>cancelled = False, isExtractionActive = True, completedCount = 0,
             popup = [], downloads = []\<rparr>"

section \<open>The health-check module (HealthCheckModule)\<close>

subsection \<open>Strings\<close>

text \<open>
  Characters are bytes here; the helpers below treat the ASCII range as JavaScript does.
  \<^verbatim>\<open>trim\<close> removes white space and line terminators from both ends,
  \<^verbatim>\<open>toUpperCase\<close> maps the letters a to z, \<^verbatim>\<open>x || d\<close> on a string yields \<open>d\<close> when
  \<open>x\<close> is empty (or missing, which no use below tells apart from empty).
\<close>

definition isWhiteSpace :: "char \<Rightarrow> bool" where
  "isWhiteSpace c = (c \<in> set [CHR 0x09, CHR 0x0A, CHR 0x0B, CHR 0x0C, CHR 0x0D, CHR '' ''])"

definition trim :: "string \<Rightarrow> string" where
  "trim s = rev (dropWhile isWhiteSpace (rev (dropWhile isWhiteSpace s)))"

definition toUpperCaseChar :: "char \<Rightarrow> char" where
  "toUpperCaseChar c =
     (if 97 \<le> (of_char c :: nat) \<and> (of_char c :: nat) \<le> 122
      then char_of ((of_char c :: nat) - 32) else c)"

definition toUpperCase :: "string \<Rightarrow> string" where
  "toUpperCase s = map toUpperCaseChar s"

definition orElse :: "string \<Rightarrow> string \<Rightarrow> string" where
  "orElse x d = (if x = [] then d else x)"

definition newline :: string where
  "newline = [CHR 0x0A]"

definition tab :: string where
  "tab = [CHR 0x09]"

subsection \<open>Raw data\<close>

text \<open>
  The object \<^verbatim>\<open>scrapeHealthCheckDataFunc\<close> returns:
  \<^verbatim>\<open>{ percentage, highRisk, mediumRisk, lowRisk, informational, settings, tables, error? }\<close>
  where a setting is \<^verbatim>\<open>{ status, setting, group, yourValue, standardValue }\<close> and a table
  \<^verbatim>\<open>{ title, settings }\<close>.  A missing \<^verbatim>\<open>error\<close> is the empty string.  (The fields
  \<^verbatim>\<open>group\<close>, \<^verbatim>\<open>settings\<close> of a table and \<^verbatim>\<open>error\<close> carry a prefix because their
  names are taken.)
\<close>

record hc_setting =
  status :: string
  setting :: string
  hcGroup :: string
  yourValue :: string
  standardValue :: string

record hc_table =
  title :: string
  tableSettings :: "hc_setting list"

record health_data =
  percentage :: string
  highRisk :: "hc_setting list"
  mediumRisk :: "hc_setting list"
  lowRisk :: "hc_setting list"
  informational :: "hc_setting list"
  settings :: "hc_setting list"
  tables :: "hc_table list"
  hcError :: string

subsection \<open>formatData\<close>

text \<open>
  \<^verbatim>\<open>formatData\<close> reads the clock: its second line is
  \<^verbatim>\<open>Generated: ${new Date().toLocaleString()}\<close>.  The string the clock yields at the
  call is the parameter \<open>now\<close>.
\<close>

definition headerRow :: string where
  "headerRow = ''STATUS'' @ tab @ ''SETTING'' @ tab @ ''GROUP'' @ tab @ ''YOUR VALUE'' @ tab @
               ''STANDARD VALUE'' @ newline"

definition rowToLine :: "hc_setting \<Rightarrow> string" where
  "rowToLine s =
     orElse (status s) ''N/A'' @ tab @ orElse (setting s) ''N/A'' @ tab @
     orElse (hcGroup s) ''N/A'' @ tab @ orElse (yourValue s) ''N/A'' @ tab @
     orElse (standardValue s) ''N/A'' @ newline"

text \<open>One block of the report: a ruled title, the header row, one line per setting, an
  empty line.\<close>

definition tableBlock :: "string \<Rightarrow> hc_setting list \<Rightarrow> string" where
  "tableBlock heading rows =
     replicate 100 (CHR ''='') @ newline @ heading @ newline @
     replicate 100 (CHR ''='') @ newline @ newline @ headerRow @
     concat (map rowToLine rows) @ newline"

definition healthCheckBody :: "health_data \<Rightarrow> string" where
  "healthCheckBody d =
     ''Health Check Score: '' @ orElse (percentage d) ''N/A'' @ newline @ newline @
     (if tables d \<noteq> []
      then concat (map (\<lambda>t. tableBlock (toUpperCase (orElse (title t) ''Security Settings''))
                              (tableSettings t)) (tables d))
      else tableBlock ''HIGH-RISK SECURITY SETTINGS'' (highRisk d) @
           tableBlock ''MEDIUM-RISK SECURITY SETTINGS'' (mediumRisk d) @
           tableBlock ''LOW-RISK SECURITY SETTINGS'' (lowRisk d) @
           tableBlock ''INFORMATIONAL SECURITY SETTINGS'' (informational d))"

definition healthCheckFormatData :: "string \<Rightarrow> health_data \<Rightarrow> string outcome" where
  "healthCheckFormatData now d =
     Inr (''HEALTH CHECK REPORT'' @ newline @ ''Generated: '' @ now @ newline @
          healthCheckBody d)"

subsection \<open>The page as the module meets it\<close>

text \<open>
  Every page probe (\<^verbatim>\<open>chrome.scripting.executeScript\<close> with an injected function) takes
  some time, in milliseconds, and then resolves with the function's result, if any
  (\<^verbatim>\<open>result?.[0]?.result\<close>), or rejects.  The readiness check and the data scrape are
  repeated; their answer depends on the number of the attempt.
\<close>

record nav_result =
  navSuccess :: bool
  navError :: string

record ready_result =
  ready :: bool
  found :: nat

record hc_page =
  tabsGet :: "unit outcome"
  searchFunc :: "nat \<times> nav_result option outcome"
  clickHealthCheckLinkFunc :: "nat \<times> nav_result option outcome"
  checkHealthCheckTablesReadyFunc :: "nat \<Rightarrow> nat \<times> ready_result option outcome"
  expandHealthCheckSectionsFunc :: "nat \<times> unit outcome"
  scrapeHealthCheckDataFunc :: "nat \<Rightarrow> nat \<times> health_data option outcome"

text \<open>What the module does and how long it takes: a probe with the time the module waited
  for it, or a \<^verbatim>\<open>delay\<close>.\<close>

datatype action = Probe string nat | Sleep nat

fun duration :: "action \<Rightarrow> nat" where
  "duration (Probe f ms) = ms"
| "duration (Sleep ms) = ms"

definition elapsed :: "action list \<Rightarrow> nat" where
  "elapsed actions = sum_list (map duration actions)"

definition after :: "action list \<Rightarrow> action list \<times> 'a \<Rightarrow> action list \<times> 'a" where
  "after actions rest = (actions @ fst rest, snd rest)"

subsection \<open>Step 4: the readiness polling loop\<close>

definition maxRetries :: nat where
  "maxRetries = 6"

text \<open>
  \<^verbatim>\<open>while (!tablesFound && retryCount < maxRetries)\<close>: the loop is entered with
  \<^verbatim>\<open>tablesFound\<close> false and left by \<^verbatim>\<open>break\<close> as soon as a check reports
  \<^verbatim>\<open>ready\<close>; between two checks the module waits 5 seconds.  The result is
  \<^verbatim>\<open>tablesFound\<close>, or the error of a probe that rejected.
\<close>

function readinessLoop :: "hc_page \<Rightarrow> nat \<Rightarrow> action list \<times> bool outcome" where
  "readinessLoop page retryCount =
     (if retryCount < maxRetries
      then
        (case checkHealthCheckTablesReadyFunc page (Suc retryCount) of
           (ms, Inl e) \<Rightarrow> ([Probe ''checkHealthCheckTablesReadyFunc'' ms], Inl e)
         | (ms, Inr checkResult) \<Rightarrow>
             (if (case checkResult of None \<Rightarrow> False | Some r \<Rightarrow> ready r)
              then ([Probe ''checkHealthCheckTablesReadyFunc'' ms], Inr True)
              else if Suc retryCount < maxRetries
              then after [Probe ''checkHealthCheckTablesReadyFunc'' ms, Sleep 5000]
                     (readinessLoop page (Suc retryCount))
              else after [Probe ''checkHealthCheckTablesReadyFunc'' ms]
                     (readinessLoop page (Suc retryCount))))
      else ([], Inr False))"
  by pat_completeness auto
termination
  by (relation "measure (\<lambda>(page, retryCount). maxRetries - retryCount)") auto

declare readinessLoop.simps [simp del]

subsection \<open>Step 5: scrape with retry\<close>

definition SCRAPE_TIMEOUT_MS :: nat where
  "SCRAPE_TIMEOUT_MS = 75000"

definition MAX_SCRAPE_ATTEMPTS :: nat where
  "MAX_SCRAPE_ATTEMPTS = 3"

definition RETRY_WAIT_MS :: nat where
  "RETRY_WAIT_MS = 10000"

text \<open>
  \<^verbatim>\<open>looksLikeNoData\<close>: no data at all, or a score of \<^verbatim>\<open>0%\<close>, \<^verbatim>\<open>N/A\<close> or nothing
  together with no setting, no high-risk and no medium-risk row.
\<close>

definition looksLikeNoData :: "health_data option \<Rightarrow> bool" where
  "looksLikeNoData data' =
     (case data' of
        None \<Rightarrow> True
      | Some d \<Rightarrow>
          (let pct = trim (percentage d);
               totalSettings = length (settings d);
               hasRows = (totalSettings > 0 \<or> highRisk d \<noteq> [] \<or> mediumRisk d \<noteq> [])
           in (pct = ''0%'' \<or> pct = ''N/A'' \<or> pct = []) \<and> \<not> hasRows))"

text \<open>
  \<^verbatim>\<open>for (let attempt = 1; attempt <= MAX_SCRAPE_ATTEMPTS; attempt++)\<close>.  Each attempt races
  the scrape probe against a 75 second timer.  An attempt without data, or with an error
  and no settings, rejects.  Data that does not look like no data leaves the loop
  (\<^verbatim>\<open>break\<close>); otherwise the module waits 10 seconds, unless this was the last attempt,
  and tries again.  After the loop the promise resolves with the data of the last attempt.
  The third argument is the variable \<^verbatim>\<open>healthCheckData\<close>, \<^verbatim>\<open>null\<close> at first; reading
  \<^verbatim>\<open>healthCheckData.percentage\<close> after the loop would throw on \<^verbatim>\<open>null\<close>.
\<close>

function scrapeWithRetry ::
  "hc_page \<Rightarrow> nat \<Rightarrow> health_data option \<Rightarrow> action list \<times> health_data outcome" where
  "scrapeWithRetry page attempt healthCheckData =
     (if attempt \<le> MAX_SCRAPE_ATTEMPTS
      then
        (case scrapeHealthCheckDataFunc page attempt of (ms, dataResult) \<Rightarrow>
          (if SCRAPE_TIMEOUT_MS \<le> ms
           then ([Probe ''scrapeHealthCheckDataFunc'' SCRAPE_TIMEOUT_MS],
                 Inl (Error ''Health Check scrape timed out after 75s (page may be too large)''))
           else
             (case dataResult of
                Inl e \<Rightarrow> ([Probe ''scrapeHealthCheckDataFunc'' ms], Inl e)
              | Inr None \<Rightarrow>
                  ([Probe ''scrapeHealthCheckDataFunc'' ms],
                   Inl (Error ''Failed to scrape health check data - no data returned''))
              | Inr (Some d) \<Rightarrow>
                  (if hcError d \<noteq> [] \<and> settings d = []
                   then ([Probe ''scrapeHealthCheckDataFunc'' ms],
                         Inl (Error (''Health check scraping error: '' @ hcError d)))
                   else if \<not> looksLikeNoData (Some d)
                   then ([Probe ''scrapeHealthCheckDataFunc'' ms], Inr d)
                   else if attempt < MAX_SCRAPE_ATTEMPTS
                   then after [Probe ''scrapeHealthCheckDataFunc'' ms, Sleep RETRY_WAIT_MS]
                          (scrapeWithRetry page (Suc attempt) (Some d))
                   else after [Probe ''scrapeHealthCheckDataFunc'' ms]
                          (scrapeWithRetry page (Suc attempt) (Some d))))))
      else
        (case healthCheckData of
           Some d \<Rightarrow> ([], Inr d)
         | None \<Rightarrow> ([], Inl (Error ''Cannot read properties of null (reading 'percentage')''))))"
  by pat_completeness auto
termination
  by (relation "measure (\<lambda>(page, attempt, healthCheckData). Suc MAX_SCRAPE_ATTEMPTS - attempt)")
     auto

declare scrapeWithRetry.simps [simp del]

subsection \<open>The whole of scrape\<close>

text \<open>\<^verbatim>\<open>'...: ' + (result?.error || 'Unknown error')\<close> for a navigation probe that did not
  succeed.\<close>

definition navigationError :: "string \<Rightarrow> nav_result option \<Rightarrow> js_error" where
  "navigationError prefix r =
     Error (prefix @ orElse (case r of None \<Rightarrow> [] | Some n \<Rightarrow> navError n) ''Unknown error'')"

definition navigated :: "nav_result option \<Rightarrow> bool" where
  "navigated r = (case r of None \<Rightarrow> False | Some n \<Rightarrow> navSuccess n)"

text \<open>From the readiness loop on: when the tables were found the sections are expanded and
  the module waits 2 and then 8 seconds; when they were not, it proceeds to Step 5 at
  once.\<close>

definition afterPageLoad :: "hc_page \<Rightarrow> action list \<times> health_data outcome" where
  "afterPageLoad page =
     (case readinessLoop page 0 of
        (polling, Inl e) \<Rightarrow> (polling, Inl e)
      | (polling, Inr tablesFound) \<Rightarrow>
          (if \<not> tablesFound then after polling (scrapeWithRetry page 1 None)
           else
             (case expandHealthCheckSectionsFunc page of
                (ms, Inl e) \<Rightarrow> (polling @ [Probe ''expandHealthCheckSectionsFunc'' ms], Inl e)
              | (ms, Inr _) \<Rightarrow>
                  after (polling @ [Probe ''expandHealthCheckSectionsFunc'' ms, Sleep 2000,
                                    Sleep 8000])
                    (scrapeWithRetry page 1 None))))"

text \<open>Steps 1 to 5, from the moment the 150 second timer is set.\<close>

definition INITIAL_PAGE_LOAD_MS :: nat where
  "INITIAL_PAGE_LOAD_MS = 12000"

definition healthCheckSteps :: "hc_page \<Rightarrow> action list \<times> health_data outcome" where
  "healthCheckSteps page =
     (case searchFunc page of
        (ms1, Inl e) \<Rightarrow> ([Probe ''searchFunc'' ms1], Inl e)
      | (ms1, Inr searchResult) \<Rightarrow>
          (if \<not> navigated searchResult
           then ([Probe ''searchFunc'' ms1],
                 Inl (navigationError ''Failed to search for Health Check: '' searchResult))
           else
             (case clickHealthCheckLinkFunc page of
                (ms2, Inl e) \<Rightarrow>
                  ([Probe ''searchFunc'' ms1, Sleep 2000,
                    Probe ''clickHealthCheckLinkFunc'' ms2], Inl e)
              | (ms2, Inr clickResult) \<Rightarrow>
                  (if \<not> navigated clickResult
                   then ([Probe ''searchFunc'' ms1, Sleep 2000,
                          Probe ''clickHealthCheckLinkFunc'' ms2],
                         Inl (navigationError ''Failed to click Health Check link: '' clickResult))
                   else after [Probe ''searchFunc'' ms1, Sleep 2000,
                               Probe ''clickHealthCheckLinkFunc'' ms2,
                               Sleep INITIAL_PAGE_LOAD_MS]
                          (afterPageLoad page)))))"

text \<open>
  \<^verbatim>\<open>scrape\<close>: \<^verbatim>\<open>chrome.tabs.get\<close>, then the timer that rejects the promise after 150
  seconds, then the steps.  A promise settles once: the steps decide when they finish
  before the timer fires, the timer decides otherwise.
\<close>

definition healthCheckScrape :: "hc_page \<Rightarrow> health_data outcome" where
  "healthCheckScrape page =
     (case tabsGet page of
        Inl e \<Rightarrow> Inl e
      | Inr _ \<Rightarrow>
          (case healthCheckSteps page of
             (actions, settled) \<Rightarrow>
               (if elapsed actions < 150000 then settled
                else Inl (Error
                  ''Timeout: Health Check operation took too long (exceeded 150 seconds)''))))"

subsection \<open>Notions used to state the properties of the two loops\<close>

text \<open>Probes of one injected function, one per given waiting time, with the same pause
  between any two of them.\<close>

fun separated :: "string \<Rightarrow> nat \<Rightarrow> nat list \<Rightarrow> action list" where
  "separated f pause [] = []"
| "separated f pause [ms] = [Probe f ms]"
| "separated f pause (ms # rest) = Probe f ms # Sleep pause # separated f pause rest"

text \<open>The readiness check number \<open>i\<close> answers, and its answer is not \<^verbatim>\<open>ready\<close>.\<close>

definition notReady :: "hc_page \<Rightarrow> nat \<Rightarrow> bool" where
  "notReady page i =
     (case snd (checkHealthCheckTablesReadyFunc page i) of
        Inl e \<Rightarrow> False
      | Inr None \<Rightarrow> True
      | Inr (Some r) \<Rightarrow> \<not> ready r)"

text \<open>The time the module waits for scrape attempt \<open>i\<close>: the probe's, capped by the race
  against the 75 second timer.\<close>

definition attemptTime :: "hc_page \<Rightarrow> nat \<Rightarrow> nat" where
  "attemptTime page i = min (fst (scrapeHealthCheckDataFunc page i)) SCRAPE_TIMEOUT_MS"

text \<open>The data of scrape attempt \<open>i\<close>, when the probe resolves in time with data that
  passes the two checks in front of the heuristic.\<close>

definition attemptData :: "hc_page \<Rightarrow> nat \<Rightarrow> health_data option" where
  "attemptData page i =
     (case scrapeHealthCheckDataFunc page i of
        (ms, Inr (Some d)) \<Rightarrow>
          (if ms < SCRAPE_TIMEOUT_MS \<and> \<not> (hcError d \<noteq> [] \<and> settings d = []) then Some d
           else None)
      | _ \<Rightarrow> None)"

text \<open>Scrape attempt \<open>i\<close> yields data that matches the no-data heuristic.\<close>

definition noDataYet :: "hc_page \<Rightarrow> nat \<Rightarrow> bool" where
  "noDataYet page i =
     (case attemptData page i of None \<Rightarrow> False | Some d \<Rightarrow> looksLikeNoData (Some d))"

text \<open>The time readiness check number \<open>i\<close> takes.\<close>

definition checkTime :: "hc_page \<Rightarrow> nat \<Rightarrow> nat" where
  "checkTime page i = fst (checkHealthCheckTablesReadyFunc page i)"

text \<open>The number of probes of the injected function \<open>f\<close> in a trace.\<close>

definition probesOf :: "string \<Rightarrow> action list \<Rightarrow> nat" where
  "probesOf f actions =
     length (filter (\<lambda>a. case a of Probe g ms \<Rightarrow> g = f | Sleep ms \<Rightarrow> False) actions)"

text \<open>Steps 1 to 3 when search and click succeed: the search probe, 2 seconds, the click
  probe, the initial page load wait.\<close>

definition navigationTrace :: "hc_page \<Rightarrow> action list" where
  "navigationTrace page =
     [Probe ''searchFunc'' (fst (searchFunc page)), Sleep 2000,
      Probe ''clickHealthCheckLinkFunc'' (fst (clickHealthCheckLinkFunc page)),
      Sleep INITIAL_PAGE_LOAD_MS]"

text \<open>What follows the readiness loop before Step 5: the expansion of the sections and the
  waits of 2 and 8 seconds when the tables were found, nothing when they were not.\<close>

definition expansionTrace :: "hc_page \<Rightarrow> bool \<Rightarrow> action list" where
  "expansionTrace page tablesFound =
     (if tablesFound
      then [Probe ''expandHealthCheckSectionsFunc'' (fst (expandHealthCheckSectionsFunc page)),
            Sleep 2000, Sleep 8000]
      else [])"

section \<open>The sensitive-data module (SensitiveDataModule)\<close>

text \<open>
  A placeholder: \<^verbatim>\<open>scrape\<close> returns
  \<^verbatim>\<open>{ status: 'not_implemented', message: ..., timestamp: new Date().toISOString() }\<close>
  and \<^verbatim>\<open>formatData\<close> prints the three fields.  The clock is read by \<^verbatim>\<open>scrape\<close>, not
  by \<^verbatim>\<open>formatData\<close>.  (The fields \<^verbatim>\<open>status\<close> and \<^verbatim>\<open>message\<close> carry a prefix because
  their names are taken.)
\<close>

record sensitive_data =
  sdStatus :: string
  sdMessage :: string
  timestamp :: string

definition sensitiveDataScrape :: "string \<Rightarrow> sensitive_data outcome" where
  "sensitiveDataScrape nowISO =
     Inr \<lparr>sdStatus = ''not_implemented'',
          sdMessage = ''Sensitive Data module is not yet implemented'',
          timestamp = nowISO\<rparr>"

definition sensitiveDataBody :: "sensitive_data \<Rightarrow> string" where
  "sensitiveDataBody d =
     ''SENSITIVE DATA REPORT'' @ newline @ replicate 80 (CHR ''='') @ newline @ newline @
     ''Status: '' @ sdStatus d @ newline @
     ''Message: '' @ sdMessage d @ newline @
     ''Timestamp: '' @ timestamp d @ newline @ newline @
     ''This module is a placeholder and will be implemented in a future update.'' @ newline"

definition sensitiveDataFormatData :: "sensitive_data \<Rightarrow> string outcome" where
  "sensitiveDataFormatData d = Inr (sensitiveDataBody d)"

section \<open>The registered module classes and their file names\<close>

text \<open>
  The nine classes the background worker instantiates, the identifiers it registers them
  under (in this order) and the \<^verbatim>\<open>name\<close> each constructor passes to
  \<^verbatim>\<open>BaseModule\<close>.
\<close>

datatype module_class =
    LicensesModule | ProfilesModule | GeneralInfoModule | HealthCheckModule | StorageModule
  | SandboxesModule | SharingSettingsModule | SensitiveDataModule | LoginHistoryModule

definition registeredModules :: "(string \<times> module_class) list" where
  "registeredModules =
     [(''licenses'', LicensesModule), (''profiles'', ProfilesModule),
      (''general-info'', GeneralInfoModule), (''health-check'', HealthCheckModule),
      (''storage'', StorageModule), (''sandboxes'', SandboxesModule),
      (''sharing-settings'', SharingSettingsModule), (''sensitive-data'', SensitiveDataModule),
      (''login-history'', LoginHistoryModule)]"

fun className :: "module_class \<Rightarrow> string" where
  "className LicensesModule = ''Licenses''"
| "className ProfilesModule = ''Profiles''"
| "className GeneralInfoModule = ''General Information''"
| "className HealthCheckModule = ''Health Check''"
| "className StorageModule = ''Storage''"
| "className SandboxesModule = ''Sandboxes''"
| "className SharingSettingsModule = ''Sharing Settings''"
| "className SensitiveDataModule = ''Sensitive Data''"
| "className LoginHistoryModule = ''Login History''"

text \<open>\<^verbatim>\<open>BaseModule.getFilename\<close>:
  \<^verbatim>\<open>this.name.toLowerCase().replace(/\s+/g, '-')\<close>, every run of white space becomes one
  hyphen.\<close>

definition toLowerCaseChar :: "char \<Rightarrow> char" where
  "toLowerCaseChar c =
     (if 65 \<le> (of_char c :: nat) \<and> (of_char c :: nat) \<le> 90
      then char_of ((of_char c :: nat) + 32) else c)"

definition toLowerCase :: "string \<Rightarrow> string" where
  "toLowerCase s = map toLowerCaseChar s"

function replaceWhiteSpaceRuns :: "string \<Rightarrow> string" where
  "replaceWhiteSpaceRuns [] = []"
| "replaceWhiteSpaceRuns (c # cs) =
     (if isWhiteSpace c then CHR ''-'' # replaceWhiteSpaceRuns (dropWhile isWhiteSpace cs)
      else c # replaceWhiteSpaceRuns cs)"
  by pat_completeness auto
termination
  by (relation "measure length") (auto simp: length_dropWhile_le less_Suc_eq_le)

definition baseGetFilename :: "string \<Rightarrow> string" where
  "baseGetFilename name' = replaceWhiteSpaceRuns (toLowerCase name')"

text \<open>\<^verbatim>\<open>getFilename\<close> of each class: eight classes override it with a literal, the
  sensitive-data class inherits the base method.  It takes no argument.\<close>

fun getFilenameOf :: "module_class \<Rightarrow> string" where
  "getFilenameOf LicensesModule = ''1_licenses''"
| "getFilenameOf ProfilesModule = ''2_profiles''"
| "getFilenameOf GeneralInfoModule = ''3_general_info''"
| "getFilenameOf HealthCheckModule = ''4_health_check''"
| "getFilenameOf StorageModule = ''5_storage''"
| "getFilenameOf SandboxesModule = ''6_sandboxes''"
| "getFilenameOf SharingSettingsModule = ''7_sharing_settings''"
| "getFilenameOf SensitiveDataModule = baseGetFilename (className SensitiveDataModule)"
| "getFilenameOf LoginHistoryModule = ''8_login_history''"

fun classDescription :: "module_class \<Rightarrow> string" where
  "classDescription LicensesModule = ''Extract user license information''"
| "classDescription ProfilesModule = ''Extract profile information and count active users''"
| "classDescription GeneralInfoModule = ''Extract general organization information''"
| "classDescription HealthCheckModule =
     ''Perform system health checks and extract security settings''"
| "classDescription StorageModule =
     ''Extract storage overview and data/file storage object details''"
| "classDescription SandboxesModule = ''Extract sandbox licenses and full sandbox table''"
| "classDescription SharingSettingsModule =
     ''Extract Organization-Wide Defaults (Object, Internal/External Access)''"
| "classDescription SensitiveDataModule = ''Scan for sensitive data exposure''"
| "classDescription LoginHistoryModule = ''Download login history CSV file''"

text \<open>
  A fresh instance of a class.  The constructor sets name and description and leaves the
  module disabled.  In all nine classes \<^verbatim>\<open>initialize\<close> only logs and resets fields and
  \<^verbatim>\<open>validate\<close> returns \<^verbatim>\<open>{ valid: true }\<close>; every class has a \<^verbatim>\<open>getJsonPayload\<close>
  method (its own or the inherited one) and none has \<^verbatim>\<open>getDateFormat\<close>.  What
  \<^verbatim>\<open>scrape\<close>, \<^verbatim>\<open>formatData\<close> and \<^verbatim>\<open>getJsonPayload\<close> do depends on the class and on
  the page; they are parameters.
\<close>

definition moduleOfClass ::
  "module_class \<Rightarrow> (exec_context \<Rightarrow> progress list \<times> 'd outcome) \<Rightarrow> ('d \<Rightarrow> string outcome) \<Rightarrow>
   ('d \<Rightarrow> 'd outcome) \<Rightarrow> 'd module" where
  "moduleOfClass c scrape' formatData' getJsonPayload' =
     \<lparr>name = className c, description = classDescription c, isEnabled = False,
      initialize = Inr (), validate = Inr \<lparr>valid = True, message = None\<rparr>,
      scrape = scrape', formatData = formatData', getJsonPayload = Some getJsonPayload',
      getFilename = getFilenameOf c, getDateFormat = None\<rparr>"

text \<open>The ordinal a consumer reads off a file name: the decimal number in front of the
  first underscore, if the name starts with digits followed by an underscore.\<close>

definition isDigit :: "char \<Rightarrow> bool" where
  "isDigit c = (48 \<le> (of_char c :: nat) \<and> (of_char c :: nat) \<le> 57)"

definition ordinalPrefix :: "string \<Rightarrow> nat option" where
  "ordinalPrefix s =
     (if takeWhile isDigit s \<noteq> [] \<and> take 1 (dropWhile isDigit s) = ''_''
      then Some (foldl (\<lambda>n c. 10 * n + ((of_char c :: nat) - 48)) 0 (takeWhile isDigit s))
      else None)"

section \<open>Stub modules and callers for the closed examples\<close>

text \<open>
  An instance of a registered class whose raw data is a string: \<^verbatim>\<open>scrape\<close> emits no
  progress and settles as given, \<^verbatim>\<open>formatData\<close> returns the raw string and
  \<^verbatim>\<open>getJsonPayload\<close> is the base class's identity.
\<close>

definition stubModule :: "module_class \<Rightarrow> string outcome \<Rightarrow> string module" where
  "stubModule c scraped = moduleOfClass c (\<lambda>ctx. ([], scraped)) (\<lambda>d. Inr d) (\<lambda>d. Inr d)"

definition stubContext :: exec_context where
  "stubContext = \<lparr>tabId = 1, customerName = ''Acme''\<rparr>"

text \<open>A registry holding a licenses and a profiles stub, both succeeding.\<close>

definition stubManager :: "string module_manager" where
  "stubManager =
     fst (registerModule ''profiles'' (stubModule ProfilesModule (Inr ''p''))
       (fst (registerModule ''licenses'' (stubModule LicensesModule (Inr ''l''))
          newModuleManager)))"

text \<open>A registry whose first module cannot find its link and whose second succeeds.\<close>

definition failingManager :: "string \<Rightarrow> string module_manager" where
  "failingManager msg =
     fst (registerModule ''licenses'' (stubModule LicensesModule (Inr ''l''))
       (fst (registerModule ''profiles'' (stubModule ProfilesModule (Inl (Error msg)))
          newModuleManager)))"

text \<open>A completion callback that counts its calls and throws when it is handed a failure
  result; a caller without other event handlers.\<close>

definition strictCompletion :: "(string module_result, nat) callback" where
  "strictCompletion result n =
     (if success result then (Inr (), Suc n) else (Inl (Error ''cannot save a failed module''), Suc n))"

definition quiet :: "await_point \<Rightarrow> 's \<Rightarrow> 's" where
  "quiet p s = s"

text \<open>A user who presses Cancel while the loop sleeps after the first module, and a
  download API that always succeeds.\<close>

definition cancelAfterFirst :: "await_point \<Rightarrow> 'd job \<Rightarrow> 'd job" where
  "cancelAfterFirst p j = (if p = AwaitDelay 1 then cancelExtraction j else j)"

definition downloadOk :: "string \<Rightarrow> nat outcome" where
  "downloadOk filepath = Inr 7"

text \<open>A completion callback that only counts its calls.\<close>

definition countingCompletion :: "(string module_result, nat) callback" where
  "countingCompletion result n = (Inr (), Suc n)"

text \<open>
  Two pages for the health-check module.  On both, search and click succeed and every
  probe takes 100 milliseconds.  On the slow page the tables never show up and the first
  scrape finds a score of 87% and one high-risk setting.  On the empty page the tables
  are there at the first check and every scrape finds a score of 0% and no rows.
\<close>

definition emptyData :: health_data where
  "emptyData = \<lparr>percentage = ''0%'', highRisk = [], mediumRisk = [], lowRisk = [],
                 informational = [], settings = [], tables = [], hcError = []\<rparr>"

definition weakPassword :: hc_setting where
  "weakPassword = \<lparr>status = ''Critical'', setting = ''Minimum password length'',
                    hcGroup = ''Password Policies'', yourValue = ''5'', standardValue = ''8''\<rparr>"

definition goodData :: health_data where
  "goodData = \<lparr>percentage = ''87%'', highRisk = [weakPassword], mediumRisk = [], lowRisk = [],
                informational = [], settings = [weakPassword],
                tables = [\<lparr>title = ''High-Risk Security Settings'',
                           tableSettings = [weakPassword]\<rparr>],
                hcError = []\<rparr>"


definition emptyPage :: hc_page where
  "emptyPage =
     \<lparr>tabsGet = Inr (),
      searchFunc = (100, Inr (Some \<lparr>navSuccess = True, navError = []\<rparr>)),
      clickHealthCheckLinkFunc = (100, Inr (Some \<lparr>navSuccess = True, navError = []\<rparr>)),
      checkHealthCheckTablesReadyFunc = (\<lambda>i. (100, Inr (Some \<lparr>ready = True, found = 4\<rparr>))),
      expandHealthCheckSectionsFunc = (100, Inr ()),
      scrapeHealthCheckDataFunc = (\<lambda>i. (100, Inr (Some emptyData)))\<rparr>"


text \<open>
  An instance of a registered class whose formatted text and whose structured payload
  both differ from the raw data, as with the profiles module, whose payload wraps the
  scraped list in an object.
\<close>

definition wrappingModule :: "module_class \<Rightarrow> string outcome \<Rightarrow> string module" where
  "wrappingModule c scraped =
     moduleOfClass c (\<lambda>ctx. ([], scraped)) (\<lambda>d. Inr (''Report: '' @ d))
       (\<lambda>d. Inr (''{ profiles: '' @ d @ '' }''))"

text \<open>A registry whose licenses module cannot find its link and whose profiles module
  succeeds with a wrapped payload.\<close>

definition wrappingManager :: "string module_manager" where
  "wrappingManager =
     fst (registerModule ''profiles'' (wrappingModule ProfilesModule (Inr ''p''))
       (fst (registerModule ''licenses'' (stubModule LicensesModule (Inl (Error ''link not found'')))
          newModuleManager)))"



definition slowScrapePage :: hc_page where
  "slowScrapePage =
     emptyPage\<lparr>scrapeHealthCheckDataFunc := (\<lambda>i. (45000, Inr (Some emptyData)))\<rparr>"



section \<open>Properties of the registry\<close>

lemma enable_simps [simp]:
  "enable (disable m) = enable m" "enable (enable m) = enable m" "isEnabled (enable m)"
  by (simp_all add: enable_def disable_def)

lemma enableSelected_modules:
  "modules (fst (enableSelected ids mgr)) i =
     (if i \<in> set ids then map_option enable (modules mgr i) else modules mgr i)"
proof (induction ids arbitrary: mgr)
  case Nil
  then show ?case by simp
next
  case (Cons a ids)
  show ?case
  proof (cases "modules mgr a")
    case None
    then show ?thesis using Cons.IH [of mgr] by (auto split: prod.splits)
  next
    case (Some m)
    then show ?thesis
      using Cons.IH [of "mgr\<lparr>modules := (modules mgr)(a \<mapsto> enable m),
                              executionOrder := executionOrder mgr @ [a]\<rparr>"]
      by (auto split: prod.splits simp: option.map_comp comp_def)
  qed
qed

lemma enableSelected_order:
  "executionOrder (fst (enableSelected ids mgr)) =
     executionOrder mgr @ filter (\<lambda>i. modules mgr i \<noteq> None) ids"
proof (induction ids arbitrary: mgr)
  case Nil
  then show ?case by simp
next
  case (Cons a ids)
  show ?case
  proof (cases "modules mgr a")
    case None
    then show ?thesis using Cons.IH [of mgr] by (auto split: prod.splits)
  next
    case (Some m)
    have "filter (\<lambda>i. ((modules mgr)(a \<mapsto> enable m)) i \<noteq> None) ids =
          filter (\<lambda>i. modules mgr i \<noteq> None) ids"
      using Some by (intro filter_cong) auto
    then show ?thesis
      using Some Cons.IH [of "mgr\<lparr>modules := (modules mgr)(a \<mapsto> enable m),
                                   executionOrder := executionOrder mgr @ [a]\<rparr>"]
      by (auto split: prod.splits)
  qed
qed

lemma enableSelected_console:
  "snd (enableSelected ids mgr) =
     map (\<lambda>i. if modules mgr i \<noteq> None then Log (''[ModuleManager] Enabled module: '' @ i)
               else Warn (''[ModuleManager] Module not found: '' @ i)) ids"
proof (induction ids arbitrary: mgr)
  case Nil
  then show ?case by simp
next
  case (Cons a ids)
  show ?case
  proof (cases "modules mgr a")
    case None
    then show ?thesis using Cons.IH [of mgr] by (auto split: prod.splits)
  next
    case (Some m)
    have "\<And>i. (((modules mgr)(a \<mapsto> enable m)) i \<noteq> None) = (modules mgr i \<noteq> None)"
      using Some by auto
    then show ?thesis
      using Some Cons.IH [of "mgr\<lparr>modules := (modules mgr)(a \<mapsto> enable m),
                                   executionOrder := executionOrder mgr @ [a]\<rparr>"]
      by (auto split: prod.splits)
  qed
qed

lemma collectEnabled_enabled:
  "(\<And>i. i \<in> set ids \<Longrightarrow> ms i = map_option enable (ms0 i)) \<Longrightarrow>
   collectEnabled ms ids = List.map_filter (\<lambda>i. map_option (\<lambda>m. (i, enable m)) (ms0 i)) ids"
  by (induction ids) (auto split: option.splits)

lemma map_filter_registered:
  "List.map_filter (\<lambda>i. map_option (\<lambda>m. (i, f m)) (g i)) (filter (\<lambda>i. g i \<noteq> None) ids) =
   List.map_filter (\<lambda>i. map_option (\<lambda>m. (i, f m)) (g i)) ids"
  by (induction ids) (auto split: option.splits)

lemma map_fst_map_filter:
  "map fst (List.map_filter (\<lambda>i. map_option (\<lambda>m. (i, f m)) (g i)) ids) =
   filter (\<lambda>i. g i \<noteq> None) ids"
  by (induction ids) (auto split: option.splits)

lemma getEnabledModules_enableModules:
  "getEnabledModules (fst (enableModules ids mgr)) =
     List.map_filter (\<lambda>i. map_option (\<lambda>m. (i, enable m)) (modules mgr i)) ids"
proof -
  have order: "executionOrder (fst (enableModules ids mgr)) =
                 filter (\<lambda>i. modules mgr i \<noteq> None) ids"
    by (simp add: enableModules_def enableSelected_order)
  have "collectEnabled (modules (fst (enableModules ids mgr)))
          (filter (\<lambda>i. modules mgr i \<noteq> None) ids) =
        List.map_filter (\<lambda>i. map_option (\<lambda>m. (i, enable m)) (modules mgr i))
          (filter (\<lambda>i. modules mgr i \<noteq> None) ids)"
    by (rule collectEnabled_enabled)
       (simp add: enableModules_def enableSelected_modules option.map_comp comp_def)
  then have "collectEnabled (modules (fst (enableModules ids mgr)))
          (filter (\<lambda>i. modules mgr i \<noteq> None) ids) =
        List.map_filter (\<lambda>i. map_option (\<lambda>m. (i, enable m)) (modules mgr i)) ids"
    by (simp only: map_filter_registered)
  then show ?thesis
    by (simp only: getEnabledModules_def order)
qed

lemma count_list_filter_le: "count_list (filter P xs) x \<le> count_list xs x"
  by (induction xs) auto

text \<open>
  Claim C9.  Registering a module under an identifier that is already registered does
  not fail: \<^verbatim>\<open>registerModule\<close> is a total function, after the second registration
  \<^verbatim>\<open>getModule\<close> returns the second instance, every other identifier keeps its module,
  the execution order is untouched, and the only trace of the overwrite is one warning in
  front of the usual log line.
\<close>

theorem registerModule_overwrites:
  "getModule id' (fst (registerModule id' m2 (fst (registerModule id' m1 mgr)))) = Some m2 \<and>
   snd (registerModule id' m2 (fst (registerModule id' m1 mgr))) =
     [Warn (''Module '' @ id' @ '' is already registered. Overwriting...''),
      Log (''[ModuleManager] Registered module: '' @ id')] \<and>
   executionOrder (fst (registerModule id' m2 (fst (registerModule id' m1 mgr)))) =
     executionOrder mgr \<and>
   (\<forall>other. other = id' \<or>
      getModule other (fst (registerModule id' m2 (fst (registerModule id' m1 mgr)))) =
      getModule other mgr)"
  by (simp add: registerModule_def getModule_def)

text \<open>
  Claim C3.  For every list of module identifiers (the empty one included),
  \<^verbatim>\<open>enableModules\<close> followed by \<^verbatim>\<open>getEnabledModules\<close> returns the identifiers of the
  list that are registered, in the order of the list, each with its registered module,
  now enabled.  No identifier occurs more often in the result than in the list, so a list
  without duplicates gives a result without duplicates.  An unknown identifier is skipped:
  it only produces a warning on the console.
\<close>

theorem enableModules_getEnabledModules:
  "map fst (getEnabledModules (fst (enableModules moduleIds mgr))) =
     filter (\<lambda>i. getModule i mgr \<noteq> None) moduleIds \<and>
   getEnabledModules (fst (enableModules moduleIds mgr)) =
     List.map_filter (\<lambda>i. map_option (\<lambda>m. (i, enable m)) (getModule i mgr)) moduleIds \<and>
   (\<forall>x. count_list (map fst (getEnabledModules (fst (enableModules moduleIds mgr)))) x
          \<le> count_list moduleIds x) \<and>
   (distinct moduleIds \<longrightarrow>
      distinct (map fst (getEnabledModules (fst (enableModules moduleIds mgr))))) \<and>
   snd (enableModules moduleIds mgr) =
     map (\<lambda>i. if getModule i mgr \<noteq> None then Log (''[ModuleManager] Enabled module: '' @ i)
               else Warn (''[ModuleManager] Module not found: '' @ i)) moduleIds"
proof -
  have ids: "map fst (getEnabledModules (fst (enableModules moduleIds mgr))) =
               filter (\<lambda>i. getModule i mgr \<noteq> None) moduleIds"
    by (simp add: getEnabledModules_enableModules map_fst_map_filter getModule_def)
  have console: "snd (enableModules moduleIds mgr) =
     map (\<lambda>i. if getModule i mgr \<noteq> None then Log (''[ModuleManager] Enabled module: '' @ i)
               else Warn (''[ModuleManager] Module not found: '' @ i)) moduleIds"
    by (simp add: enableModules_def enableSelected_console getModule_def)
  show ?thesis
    unfolding ids
    by (simp add: getEnabledModules_enableModules getModule_def count_list_filter_le console)
qed

theorem enableModules_getEnabledModules_witness:
  "distinct [''profiles'', ''storage'', ''licenses''] \<and>
   map fst (getEnabledModules
     (fst (enableModules [''profiles'', ''storage'', ''licenses''] stubManager))) =
     [''profiles'', ''licenses''] \<and>
   distinct (map fst (getEnabledModules
     (fst (enableModules [''profiles'', ''storage'', ''licenses''] stubManager)))) \<and>
   snd (enableModules [''profiles'', ''storage'', ''licenses''] stubManager) =
     [Log ''[ModuleManager] Enabled module: profiles'',
      Warn ''[ModuleManager] Module not found: storage'',
      Log ''[ModuleManager] Enabled module: licenses'']"
  using enableModules_getEnabledModules [of "[''profiles'', ''storage'', ''licenses'']" stubManager]
  by (simp add: stubManager_def registerModule_def getModule_def newModuleManager_def)

section \<open>Properties of the orchestrator\<close>

lemma notify_neverThrows: "neverThrows pcb \<Longrightarrow> fst (notify pcb u s) = Inr ()"
  by (auto simp: neverThrows_def notify_def split: option.splits)

lemma forward_neverThrows: "neverThrows pcb \<Longrightarrow> fst (forward pcb during k i us s) = Inr ()"
proof (induction us arbitrary: i s)
  case Nil
  then show ?case by simp
next
  case (Cons u us)
  obtain o1 s1 where n: "notify pcb u (during (AwaitScrape k i) s) = (o1, s1)" by force
  with notify_neverThrows [OF Cons.prems, of u "during (AwaitScrape k i) s"] have "o1 = Inr ()" by simp
  then show ?case using n Cons.IH [OF Cons.prems, of "Suc i" s1] by simp
qed

lemma tryModule_neverThrows:
  assumes "neverThrows pcb"
  shows "fst (tryModule ctx pcb during t k im s) = attemptModule ctx im"
proof -
  obtain id' m where im: "im = (id', m)" by force
  obtain o0 s0 where n: "notify pcb (MODULE_STARTED id' (name m) k t) s = (o0, s0)" by force
  with notify_neverThrows [OF assms, of "MODULE_STARTED id' (name m) k t" s] have o0: "o0 = Inr ()" by simp
  obtain o3 s3 where f: "forward pcb during k 0 (fst (scrape m ctx)) (during (AwaitValidate k) (during (AwaitInitialize k) s0)) = (o3, s3)" by force
  with forward_neverThrows [OF assms, of during k 0 "fst (scrape m ctx)" "during (AwaitValidate k) (during (AwaitInitialize k) s0)"]
  have o3: "o3 = Inr ()" by simp
  show ?thesis
    unfolding tryModule_def attemptModule_def im
    by (simp add: n o0 f o3 split: sum.splits)
qed


lemma buildResult_Inr:
  "buildResult id' m d = Inr r \<Longrightarrow>
   \<exists>f p. formatData m d = Inr f \<and> jsonPayloadOf m d = Inr p \<and> r = successResult id' m d f p"
  by (auto simp: buildResult_def split: sum.splits)

lemma tryModule_Inr:
  "tryModule ctx pcb during t k (id', m) s = (Inr r, s', st) \<Longrightarrow>
   \<exists>d. snd (scrape m ctx) = Inr d \<and> buildResult id' m d = Inr r"
  by (auto simp: tryModule_def split: prod.splits sum.splits if_splits)

lemma runModule_Inr:
  assumes "runModule ctx pcb ccb during t k (id', m) s = (Inr r, s', st)"
  shows "(\<exists>d. snd (scrape m ctx) = Inr d \<and> buildResult id' m d = Inr r) \<or>
         (\<exists>msg. r = failureResult id' m msg)"
proof -
  obtain o1 s1 st1 where t: "tryModule ctx pcb during t k (id', m) s = (o1, s1, st1)"
    by (metis prod_cases3)
  show ?thesis
  proof (cases o1)
    case (Inl e)
    then obtain msg where "e = Error msg" by (cases e) auto
    with Inl t assms show ?thesis
      by (auto simp: runModule_def Let_def split: option.splits prod.splits sum.splits)
  next
    case (Inr r1)
    with t assms have "r = r1"
      by (auto simp: runModule_def split: option.splits prod.splits)
    with Inr t have "tryModule ctx pcb during t k (id', m) s = (Inr r, s1, st1)" by simp
    from tryModule_Inr [OF this] show ?thesis by blast
  qed
qed

lemma runModule_id:
  "runModule ctx pcb ccb during t k im s = (Inr r, s', st) \<Longrightarrow> moduleId r = fst im"
  using runModule_Inr [of ctx pcb ccb during t k "fst im" "snd im" s r s' st]
  by (auto simp: failureResult_def successResult_def dest!: buildResult_Inr)

lemma runModules_Inr:
  "runModules ctx pcb ccb during t k ms acc s = (Inr rs, s', st) \<Longrightarrow>
   \<exists>new. rs = acc @ new \<and> length new = length ms \<and>
     (\<forall>i < length ms. (\<exists>d. snd (scrape (snd (ms ! i)) ctx) = Inr d \<and>
                             buildResult (fst (ms ! i)) (snd (ms ! i)) d = Inr (new ! i)) \<or>
                        (\<exists>msg. new ! i = failureResult (fst (ms ! i)) (snd (ms ! i)) msg))"
proof (induction ms arbitrary: k acc s s' st)
  case Nil
  then show ?case by simp
next
  case (Cons im ms)
  obtain o1 s1 st1 where r1: "runModule ctx pcb ccb during t (Suc k) im s = (o1, s1, st1)"
    by (metis prod_cases3)
  from Cons.prems r1 obtain r where o1: "o1 = Inr r"
    by (cases o1) auto
  obtain o2 s2 st2 where r2: "runModules ctx pcb ccb during t (Suc k) ms (acc @ [r]) (during (AwaitDelay (Suc k)) s1) = (o2, s2, st2)"
    by (metis prod_cases3)
  with Cons.prems r1 o1 have o2: "o2 = Inr rs" by simp
  from Cons.IH [OF r2 [unfolded o2]] obtain new where
    new: "rs = (acc @ [r]) @ new" "length new = length ms"
      "\<forall>i < length ms. (\<exists>d. snd (scrape (snd (ms ! i)) ctx) = Inr d \<and>
                             buildResult (fst (ms ! i)) (snd (ms ! i)) d = Inr (new ! i)) \<or>
                        (\<exists>msg. new ! i = failureResult (fst (ms ! i)) (snd (ms ! i)) msg)"
    by blast
  have hd: "(\<exists>d. snd (scrape (snd im) ctx) = Inr d \<and> buildResult (fst im) (snd im) d = Inr r) \<or>
         (\<exists>msg. r = failureResult (fst im) (snd im) msg)"
    using runModule_Inr [of ctx pcb ccb during t "Suc k" "fst im" "snd im" s r s1 st1] r1 o1 by simp
  show ?case
  proof (intro exI [of _ "r # new"] conjI allI impI)
    fix i assume "i < length (im # ms)"
    then show "(\<exists>d. snd (scrape (snd ((im # ms) ! i)) ctx) = Inr d \<and>
                buildResult (fst ((im # ms) ! i)) (snd ((im # ms) ! i)) d = Inr ((r # new) ! i)) \<or>
          (\<exists>msg. (r # new) ! i = failureResult (fst ((im # ms) ! i)) (snd ((im # ms) ! i)) msg)"
      using hd new(3) by (cases i) auto
  qed (use new in auto)
qed


lemma tryModule_steps:
  assumes "neverThrows pcb"
  shows "snd (snd (tryModule ctx pcb during t k im s)) = moduleSteps im"
proof -
  obtain id' m where im: "im = (id', m)" by force
  obtain o0 s0 where n: "notify pcb (MODULE_STARTED id' (name m) k t) s = (o0, s0)" by force
  with notify_neverThrows [OF assms, of "MODULE_STARTED id' (name m) k t" s] have o0: "o0 = Inr ()" by simp
  obtain o3 s3 where f: "forward pcb during k 0 (fst (scrape m ctx)) (during (AwaitValidate k) (during (AwaitInitialize k) s0)) = (o3, s3)" by force
  with forward_neverThrows [OF assms, of during k 0 "fst (scrape m ctx)" "during (AwaitValidate k) (during (AwaitInitialize k) s0)"]
  have o3: "o3 = Inr ()" by simp
  show ?thesis
    unfolding tryModule_def moduleSteps_def im
    by (simp add: n o0 f o3 split: sum.splits)
qed

lemma runModule_neverThrows:
  assumes "neverThrows pcb" and "neverThrows ccb"
  shows "\<exists>s'. runModule ctx pcb ccb during t k im s = (Inr (moduleResult ctx im), s', moduleSteps im)"
proof -
  obtain o1 s1 st1 where tm: "tryModule ctx pcb during t k im s = (o1, s1, st1)"
    by (metis prod_cases3)
  have o1: "attemptModule ctx im = o1" using tryModule_neverThrows [OF assms(1), of ctx during t k im s] tm by simp
  have st1: "st1 = moduleSteps im" using tryModule_steps [OF assms(1), of ctx during t k im s] tm by simp
  show ?thesis
  proof (cases o1)
    case (Inl e)
    then obtain msg where e: "o1 = Inl (Error msg)" by (cases e) auto
    have mr: "moduleResult ctx im = failureResult (fst im) (snd im) msg"
      by (simp add: moduleResult_def o1 e)
    show ?thesis
    proof (cases ccb)
      case None
      then show ?thesis by (simp add: runModule_def tm e mr st1)
    next
      case (Some cb)
      obtain o2 s2 where c: "cb (failureResult (fst im) (snd im) msg) s1 = (o2, s2)" by force
      have "fst (cb (failureResult (fst im) (snd im) msg) s1) = Inr ()"
        using assms(2) Some by (simp add: neverThrows_def)
      with c have "o2 = Inr ()" by simp
      then show ?thesis by (simp add: runModule_def tm e mr st1 Some c)
    qed
  next
    case (Inr r)
    have mr: "moduleResult ctx im = r"
      by (simp add: moduleResult_def o1 Inr)
    show ?thesis
    proof (cases ccb)
      case None
      then show ?thesis by (simp add: runModule_def tm Inr mr st1)
    next
      case (Some cb)
      obtain o2 s2 where c: "cb r s1 = (o2, s2)" by force
      then show ?thesis by (simp add: runModule_def tm Inr mr st1 Some c)
    qed
  qed
qed

lemma runModules_neverThrows:
  assumes "neverThrows pcb" and "neverThrows ccb"
  shows "\<exists>s'. runModules ctx pcb ccb during t k ms acc s =
           (Inr (acc @ map (moduleResult ctx) ms), s',
            concat (map (\<lambda>im. moduleSteps im @ [Delay 500]) ms))"
proof (induction ms arbitrary: k acc s)
  case Nil
  then show ?case by simp
next
  case (Cons im ms)
  from runModule_neverThrows [OF assms, of ctx during t "Suc k" im s]
  obtain s1 where r1: "runModule ctx pcb ccb during t (Suc k) im s = (Inr (moduleResult ctx im), s1, moduleSteps im)"
    by blast
  from Cons.IH [of "Suc k" "acc @ [moduleResult ctx im]" "during (AwaitDelay (Suc k)) s1"]
  obtain s2 where r2: "runModules ctx pcb ccb during t (Suc k) ms (acc @ [moduleResult ctx im]) (during (AwaitDelay (Suc k)) s1) =
           (Inr ((acc @ [moduleResult ctx im]) @ map (moduleResult ctx) ms), s2,
            concat (map (\<lambda>im. moduleSteps im @ [Delay 500]) ms))"
    by blast
  show ?case by (simp add: r1 r2)
qed

lemma executeEnabledModules_neverThrows:
  assumes "neverThrows pcb" and "neverThrows ccb"
  shows "\<exists>s'. executeEnabledModules mgr ctx pcb ccb during s =
           (Inr (map (moduleResult ctx) (getEnabledModules mgr)), s',
            concat (map (\<lambda>im. moduleSteps im @ [Delay 500]) (getEnabledModules mgr)))"
  using runModules_neverThrows [OF assms, of ctx during "length (getEnabledModules mgr)" 0
          "getEnabledModules mgr" "[]" s]
  by (simp add: executeEnabledModules_def Let_def)

lemma notify_throws: "fst (notify pcb u s) = Inl (Error msg) \<Longrightarrow> progressThrows pcb msg"
  by (auto simp: notify_def progressThrows_def split: option.splits)

lemma forward_throws:
  "fst (forward pcb during k i us s) = Inl (Error msg) \<Longrightarrow> progressThrows pcb msg"
proof (induction us arbitrary: i s)
  case Nil
  then show ?case by simp
next
  case (Cons u us)
  obtain o1 s1 where n: "notify pcb u (during (AwaitScrape k i) s) = (o1, s1)" by force
  show ?case
  proof (cases o1)
    case (Inl e)
    with Cons.prems n have "fst (notify pcb u (during (AwaitScrape k i) s)) = Inl (Error msg)"
      by simp
    then show ?thesis by (rule notify_throws)
  next
    case (Inr x)
    with Cons.prems n have "fst (forward pcb during k (Suc i) us s1) = Inl (Error msg)" by simp
    then show ?thesis by (rule Cons.IH)
  qed
qed

lemma tryModule_outcome:
  "fst (tryModule ctx pcb during t k im s) = attemptModule ctx im \<or>
   (\<exists>msg. progressThrows pcb msg \<and> fst (tryModule ctx pcb during t k im s) = Inl (Error msg))"
proof -
  obtain id' m where im: "im = (id', m)" by force
  obtain o0 s0 where n: "notify pcb (MODULE_STARTED id' (name m) k t) s = (o0, s0)" by force
  obtain o3 s3 where f: "forward pcb during k 0 (fst (scrape m ctx)) (during (AwaitValidate k) (during (AwaitInitialize k) s0)) = (o3, s3)" by force
  show ?thesis
  proof (cases o0)
    case (Inl e)
    then obtain msg where e: "o0 = Inl (Error msg)" by (cases e) auto
    with n have "progressThrows pcb msg" using notify_throws [of pcb "MODULE_STARTED id' (name m) k t" s msg] by simp
    moreover have "fst (tryModule ctx pcb during t k im s) = Inl (Error msg)"
      by (simp add: tryModule_def im n e)
    ultimately show ?thesis by blast
  next
    case o0: (Inr x)
    show ?thesis
    proof (cases o3)
      case (Inl e)
      then obtain msg where e: "o3 = Inl (Error msg)" by (cases e) auto
      with f have pt: "progressThrows pcb msg"
        using forward_throws [of pcb during k 0 "fst (scrape m ctx)" "during (AwaitValidate k) (during (AwaitInitialize k) s0)" msg] by simp
      show ?thesis
        using pt
        by (auto simp: tryModule_def attemptModule_def im n o0 f e split: sum.splits)
    next
      case (Inr y)
      have "fst (tryModule ctx pcb during t k im s) = attemptModule ctx im"
        by (simp add: tryModule_def attemptModule_def im n o0 f Inr split: sum.splits)
      then show ?thesis by blast
    qed
  qed
qed

lemma runModule_result:
  assumes "runModule ctx pcb ccb during t k im s = (Inr r, s', st)"
  shows "r = moduleResult ctx im \<or>
         (\<exists>msg. progressThrows pcb msg \<and> r = failureResult (fst im) (snd im) msg)"
proof -
  obtain o1 s1 st1 where tm: "tryModule ctx pcb during t k im s = (o1, s1, st1)"
    by (metis prod_cases3)
  have r: "r = (case o1 of Inr r1 \<Rightarrow> r1 | Inl (Error msg) \<Rightarrow> failureResult (fst im) (snd im) msg)"
  proof (cases o1)
    case (Inl e)
    then obtain msg where e: "o1 = Inl (Error msg)" by (cases e) auto
    with tm assms show ?thesis
      by (auto simp: runModule_def Let_def split: option.splits prod.splits sum.splits)
  next
    case (Inr r1)
    with tm assms show ?thesis
      by (auto simp: runModule_def split: option.splits prod.splits)
  qed
  from tryModule_outcome [of ctx pcb during t k im s] tm
  consider "o1 = attemptModule ctx im" | msg where "progressThrows pcb msg" "o1 = Inl (Error msg)"
    by auto
  then show ?thesis
  proof cases
    case 1
    with r show ?thesis by (simp add: moduleResult_def)
  next
    case 2
    with r show ?thesis by auto
  qed
qed

lemma runModules_results:
  "runModules ctx pcb ccb during t k ms acc s = (Inr rs, s', st) \<Longrightarrow>
   \<exists>new. rs = acc @ new \<and> length new = length ms \<and>
     (\<forall>i < length ms. new ! i = moduleResult ctx (ms ! i) \<or>
        (\<exists>msg. progressThrows pcb msg \<and>
               new ! i = failureResult (fst (ms ! i)) (snd (ms ! i)) msg))"
proof (induction ms arbitrary: k acc s s' st)
  case Nil
  then show ?case by simp
next
  case (Cons im ms)
  obtain o1 s1 st1 where r1: "runModule ctx pcb ccb during t (Suc k) im s = (o1, s1, st1)"
    by (metis prod_cases3)
  from Cons.prems r1 obtain r where o1: "o1 = Inr r"
    by (cases o1) auto
  obtain o2 s2 st2 where r2: "runModules ctx pcb ccb during t (Suc k) ms (acc @ [r]) (during (AwaitDelay (Suc k)) s1) = (o2, s2, st2)"
    by (metis prod_cases3)
  with Cons.prems r1 o1 have o2: "o2 = Inr rs" by simp
  from Cons.IH [OF r2 [unfolded o2]] obtain new where
    new: "rs = (acc @ [r]) @ new" "length new = length ms"
      "\<forall>i < length ms. new ! i = moduleResult ctx (ms ! i) \<or>
        (\<exists>msg. progressThrows pcb msg \<and>
               new ! i = failureResult (fst (ms ! i)) (snd (ms ! i)) msg)"
    by blast
  have hd: "r = moduleResult ctx im \<or>
         (\<exists>msg. progressThrows pcb msg \<and> r = failureResult (fst im) (snd im) msg)"
    using runModule_result [of ctx pcb ccb during t "Suc k" im s r s1 st1] r1 o1 by simp
  show ?case
  proof (intro exI [of _ "r # new"] conjI allI impI)
    fix i assume "i < length (im # ms)"
    then show "(r # new) ! i = moduleResult ctx ((im # ms) ! i) \<or>
        (\<exists>msg. progressThrows pcb msg \<and>
               (r # new) ! i = failureResult (fst ((im # ms) ! i)) (snd ((im # ms) ! i)) msg)"
      using hd new(3) by (cases i) auto
  qed (use new in auto)
qed






lemma moduleResult_cases:
  "(\<exists>d f p. snd (scrape m ctx) = Inr d \<and> formatData m d = Inr f \<and>
       (case getJsonPayload m of None \<Rightarrow> p = d | Some g \<Rightarrow> g d = Inr p) \<and>
       moduleResult ctx (id', m) = successResult id' m d f p) \<or>
   (\<exists>msg. attemptModule ctx (id', m) = Inl (Error msg) \<and>
       moduleResult ctx (id', m) = failureResult id' m msg)"
proof (cases "attemptModule ctx (id', m)")
  case (Inl e)
  then obtain msg where "attemptModule ctx (id', m) = Inl (Error msg)" by (cases e) auto
  then show ?thesis by (auto simp: moduleResult_def)
next
  case (Inr r)
  then obtain d where d: "snd (scrape m ctx) = Inr d" "buildResult id' m d = Inr r"
    by (auto simp: attemptModule_def split: sum.splits if_splits)
  from buildResult_Inr [OF d(2)] obtain f p where
    fp: "formatData m d = Inr f" "jsonPayloadOf m d = Inr p" "r = successResult id' m d f p"
    by blast
  from fp(2) have "(case getJsonPayload m of None \<Rightarrow> p = d | Some g \<Rightarrow> g d = Inr p)"
    by (auto simp: jsonPayloadOf_def split: option.splits)
  with d(1) fp(1,3) Inr show ?thesis by (auto simp: moduleResult_def)
qed


text \<open>
  Whenever a run returns a result list, the list has one result per enabled module, in
  enablement order: each result carries the identifier of the module at its position.
\<close>

lemma executeEnabledModules_results_in_order:
  assumes "executeEnabledModules mgr ctx pcb ccb during s = (Inr results, s', steps)"
  shows "map moduleId results = map fst (getEnabledModules mgr)"
proof -
  let ?ms = "getEnabledModules mgr"
  from assms have "runModules ctx pcb ccb during (length ?ms) 0 ?ms [] s = (Inr results, s', steps)"
    by (simp add: executeEnabledModules_def Let_def)
  from runModules_Inr [OF this] have len: "length results = length ?ms"
    and each: "\<forall>i < length ?ms.
       (\<exists>d. snd (scrape (snd (?ms ! i)) ctx) = Inr d \<and>
            buildResult (fst (?ms ! i)) (snd (?ms ! i)) d = Inr (results ! i)) \<or>
       (\<exists>msg. results ! i = failureResult (fst (?ms ! i)) (snd (?ms ! i)) msg)"
    by auto
  show ?thesis
  proof (rule nth_equalityI)
    show "length (map moduleId results) = length (map fst ?ms)" by (simp add: len)
  next
    fix i assume "i < length (map moduleId results)"
    then have i: "i < length ?ms" by (simp add: len)
    with each have "moduleId (results ! i) = fst (?ms ! i)"
      by (auto simp: failureResult_def successResult_def dest!: buildResult_Inr)
    with i show "map moduleId results ! i = map fst ?ms ! i" by (simp add: len)
  qed
qed

text \<open>
  Claim C1, at the input where the code departs from it.  Two modules are enabled; the
  first cannot find its link, so the \<^verbatim>\<open>catch\<close> branch builds its failure result and
  awaits the completion callback, which throws.  Nothing catches that exception: the
  promise of \<^verbatim>\<open>executeEnabledModules\<close> is rejected, no result list is returned, and the
  second module is never initialised.  (After a successful module the same exception is
  caught and logged, and the run goes on.)
\<close>

theorem executeEnabledModules_rejected_by_completion_callback:
  "map fst (getEnabledModules
     (fst (enableModules [''profiles'', ''licenses''] (failingManager ''link not found'')))) =
     [''profiles'', ''licenses''] \<and>
   executeEnabledModules
     (fst (enableModules [''profiles'', ''licenses''] (failingManager ''link not found'')))
     stubContext None (Some strictCompletion) quiet 0 =
     (Inl (Error ''cannot save a failed module''), 1,
      [Initialize ''profiles'', Validate ''profiles'', Scrape ''profiles''])"
  by (simp add: executeEnabledModules_def getEnabledModules_def enableModules_def
        failingManager_def registerModule_def newModuleManager_def stubModule_def moduleOfClass_def enable_def
        disable_def runModule_def tryModule_def notify_def strictCompletion_def quiet_def
        failureResult_def stubContext_def)




text \<open>
  Claim C10.  Whenever a run returns its result list, the list has one result per enabled
  module, and for the module at each position: a result with \<^verbatim>\<open>success: true\<close> carries,
  as \<^verbatim>\<open>rawData\<close>, the data \<open>d\<close> that the module's \<^verbatim>\<open>scrape\<close> resolved with, as \<^verbatim>\<open>data\<close>
  the text the module's \<^verbatim>\<open>formatData\<close> makes of \<open>d\<close>, as \<^verbatim>\<open>jsonPayload\<close> what the
  module's own \<^verbatim>\<open>getJsonPayload\<close> returns for \<open>d\<close> (\<open>d\<close> itself only when the module has
  no such method), and no error; a result with \<^verbatim>\<open>success: false\<close> carries the error
  message \<open>msg\<close>, the structured payload \<^verbatim>\<open>{ error: msg }\<close>, the formatted text
  \<^verbatim>\<open>Error: msg\<close> and no raw data, where \<open>msg\<close> is the message of the exception that ended
  the \<^verbatim>\<open>try\<close> block: the first one thrown by the module's own methods, or one thrown by
  the progress callback.
\<close>

theorem module_result_payloads:
  assumes "executeEnabledModules mgr ctx progressCallback completionCallback during s =
             (Inr results, s', steps)"
  shows "length results = length (getEnabledModules mgr) \<and>
         (\<forall>i < length results.
            (if success (results ! i)
             then (\<exists>d formatted payload.
                     snd (scrape (snd (getEnabledModules mgr ! i)) ctx) = Inr d \<and>
                     formatData (snd (getEnabledModules mgr ! i)) d = Inr formatted \<and>
                     (case getJsonPayload (snd (getEnabledModules mgr ! i)) of
                        None \<Rightarrow> payload = d
                      | Some structured \<Rightarrow> structured d = Inr payload) \<and>
                     results ! i =
                       \<lparr>moduleId = fst (getEnabledModules mgr ! i),
                        moduleName = name (snd (getEnabledModules mgr ! i)),
                        data = formatted,
                        filename = getFilename (snd (getEnabledModules mgr ! i)),
                        success = True, error = None, rawData = Some d,
                        jsonPayload = Payload payload,
                        dateFormat = getDateFormat (snd (getEnabledModules mgr ! i))\<rparr>)
             else (\<exists>msg.
                     (attemptModule ctx (getEnabledModules mgr ! i) = Inl (Error msg) \<or>
                      progressThrows progressCallback msg) \<and>
                     results ! i =
                       \<lparr>moduleId = fst (getEnabledModules mgr ! i),
                        moduleName = name (snd (getEnabledModules mgr ! i)),
                        data = ''Error: '' @ msg,
                        filename = getFilename (snd (getEnabledModules mgr ! i)),
                        success = False, error = Some msg, rawData = None,
                        jsonPayload = ErrorObject msg,
                        dateFormat = getDateFormat (snd (getEnabledModules mgr ! i))\<rparr>)))"
proof -
  let ?ms = "getEnabledModules mgr"
  from assms have "runModules ctx progressCallback completionCallback during (length ?ms) 0 ?ms [] s =
      (Inr results, s', steps)"
    by (simp add: executeEnabledModules_def Let_def)
  from runModules_results [OF this] have len: "length results = length ?ms"
    and each: "\<forall>i < length ?ms. results ! i = moduleResult ctx (?ms ! i) \<or>
          (\<exists>msg. progressThrows progressCallback msg \<and>
                 results ! i = failureResult (fst (?ms ! i)) (snd (?ms ! i)) msg)"
    by auto
  have body: "(if success (results ! i)
             then (\<exists>d formatted payload.
                     snd (scrape (snd (?ms ! i)) ctx) = Inr d \<and>
                     formatData (snd (?ms ! i)) d = Inr formatted \<and>
                     (case getJsonPayload (snd (?ms ! i)) of
                        None \<Rightarrow> payload = d
                      | Some structured \<Rightarrow> structured d = Inr payload) \<and>
                     results ! i =
                       \<lparr>moduleId = fst (?ms ! i), moduleName = name (snd (?ms ! i)),
                        data = formatted, filename = getFilename (snd (?ms ! i)),
                        success = True, error = None, rawData = Some d,
                        jsonPayload = Payload payload,
                        dateFormat = getDateFormat (snd (?ms ! i))\<rparr>)
             else (\<exists>msg.
                     (attemptModule ctx (?ms ! i) = Inl (Error msg) \<or>
                      progressThrows progressCallback msg) \<and>
                     results ! i =
                       \<lparr>moduleId = fst (?ms ! i), moduleName = name (snd (?ms ! i)),
                        data = ''Error: '' @ msg, filename = getFilename (snd (?ms ! i)),
                        success = False, error = Some msg, rawData = None,
                        jsonPayload = ErrorObject msg,
                        dateFormat = getDateFormat (snd (?ms ! i))\<rparr>))" if "i < length results" for i
  proof -
    obtain id' m where im: "?ms ! i = (id', m)" by force
    from that len each im consider
      (own) "results ! i = moduleResult ctx (id', m)"
      | (callback) msg where "progressThrows progressCallback msg"
                             "results ! i = failureResult id' m msg"
      by auto
    then show ?thesis
    proof cases
      case own
      from moduleResult_cases [of m ctx id'] consider
        (ok) d f p where "snd (scrape m ctx) = Inr d" "formatData m d = Inr f"
             "(case getJsonPayload m of None \<Rightarrow> p = d | Some g \<Rightarrow> g d = Inr p)"
             "moduleResult ctx (id', m) = successResult id' m d f p"
        | (failed) msg where "attemptModule ctx (id', m) = Inl (Error msg)"
             "moduleResult ctx (id', m) = failureResult id' m msg"
        by blast
      then show ?thesis
      proof cases
        case ok
        have "success (results ! i)" by (simp add: own ok(4) successResult_def)
        moreover have "results ! i = \<lparr>moduleId = id', moduleName = name m,
                        data = f, filename = getFilename m,
                        success = True, error = None, rawData = Some d,
                        jsonPayload = Payload p, dateFormat = getDateFormat m\<rparr>"
          by (simp add: own ok(4) successResult_def)
        ultimately show ?thesis using ok(1,2,3) by (simp only: im fst_conv snd_conv if_True) blast
      next
        case failed
        have "\<not> success (results ! i)" by (simp add: own failed(2) failureResult_def)
        moreover have "results ! i = \<lparr>moduleId = id', moduleName = name m,
                        data = ''Error: '' @ msg, filename = getFilename m,
                        success = False, error = Some msg, rawData = None,
                        jsonPayload = ErrorObject msg, dateFormat = getDateFormat m\<rparr>"
          by (simp add: own failed(2) failureResult_def)
        ultimately show ?thesis using failed(1) by (simp only: im fst_conv snd_conv if_False) blast
      qed
    next
      case callback
      have "\<not> success (results ! i)" by (simp add: callback(2) failureResult_def)
      moreover have "results ! i = \<lparr>moduleId = id', moduleName = name m,
                        data = ''Error: '' @ msg, filename = getFilename m,
                        success = False, error = Some msg, rawData = None,
                        jsonPayload = ErrorObject msg, dateFormat = getDateFormat m\<rparr>"
        by (simp add: callback(2) failureResult_def)
      ultimately show ?thesis using callback(1) by (simp only: im fst_conv snd_conv if_False) blast
    qed
  qed
  show ?thesis
    by (intro conjI allI impI, rule len, erule body)
qed

theorem module_result_payloads_witness:
  "fst (executeEnabledModules (fst (enableModules [''licenses'', ''profiles''] wrappingManager))
       stubContext None None quiet ()) =
     Inr [\<lparr>moduleId = ''licenses'', moduleName = ''Licenses'', data = ''Error: link not found'',
           filename = ''1_licenses'', success = False, error = Some ''link not found'',
           rawData = None, jsonPayload = ErrorObject ''link not found'', dateFormat = None\<rparr>,
          \<lparr>moduleId = ''profiles'', moduleName = ''Profiles'', data = ''Report: p'',
           filename = ''2_profiles'', success = True, error = None, rawData = Some ''p'',
           jsonPayload = Payload ''{ profiles: p }'', dateFormat = None\<rparr>]"
proof -
  let ?mgr = "fst (enableModules [''licenses'', ''profiles''] wrappingManager)"
  let ?l = "enable (stubModule LicensesModule (Inl (Error ''link not found'')))"
  let ?p = "enable (wrappingModule ProfilesModule (Inr ''p''))"
  have enabled: "getEnabledModules ?mgr = [(''licenses'', ?l), (''profiles'', ?p)]"
    by (simp add: getEnabledModules_enableModules wrappingManager_def registerModule_def
          newModuleManager_def)
  have run: "executeEnabledModules ?mgr stubContext None None quiet () =
     (Inr [failureResult ''licenses'' ?l ''link not found'',
           successResult ''profiles'' ?p ''p'' ''Report: p'' ''{ profiles: p }''], (),
      [Initialize ''licenses'', Validate ''licenses'', Scrape ''licenses'', Delay 500,
       Initialize ''profiles'', Validate ''profiles'', Scrape ''profiles'', Delay 500])"
    by (simp add: executeEnabledModules_def enabled runModule_def tryModule_def notify_def
          quiet_def buildResult_def jsonPayloadOf_def wrappingModule_def stubModule_def
          moduleOfClass_def enable_def)
  from module_result_payloads [OF run] show ?thesis
    by (simp add: run failureResult_def successResult_def wrappingModule_def stubModule_def
          moduleOfClass_def enable_def)
qed

section \<open>Cancellation\<close>

lemma jobProgressCallback_neverThrows: "neverThrows (Some jobProgressCallback)"
  by (simp add: neverThrows_def jobProgressCallback_def)

lemma jobCompletionCallback_neverThrows:
  "neverThrows (Some (jobCompletionCallback folderName totalModules download))"
  by (simp add: neverThrows_def jobCompletionCallback_def split: sum.splits js_error.splits)

text \<open>
  Claim C4.  Run the orchestrator with the two closures of \<^verbatim>\<open>startExtraction\<close>, which
  read the job's \<^verbatim>\<open>cancelled\<close> flag.  Take any two initial job states (flag set or not)
  and any two behaviours of the caller's other event handlers at the suspension points of
  the loop (so \<^verbatim>\<open>cancelExtraction\<close> may run at any of them, or never).  Both runs return
  the same result list: one result per enabled module, in enablement order, each the
  result that module yields on its own.  Both runs start the same module methods in the
  same order, those of every enabled module: a set flag keeps no module from being
  attempted.
\<close>

theorem executeEnabledModules_cancellation_agnostic:
  "fst (executeEnabledModules mgr ctx (Some jobProgressCallback)
          (Some (jobCompletionCallback folderName totalModules download)) during1 job1) =
     Inr (map (moduleResult ctx) (getEnabledModules mgr)) \<and>
   fst (executeEnabledModules mgr ctx (Some jobProgressCallback)
          (Some (jobCompletionCallback folderName totalModules download)) during2 job2) =
   fst (executeEnabledModules mgr ctx (Some jobProgressCallback)
          (Some (jobCompletionCallback folderName totalModules download)) during1 job1) \<and>
   snd (snd (executeEnabledModules mgr ctx (Some jobProgressCallback)
          (Some (jobCompletionCallback folderName totalModules download)) during1 job1)) =
     concat (map (\<lambda>im. moduleSteps im @ [Delay 500]) (getEnabledModules mgr)) \<and>
   snd (snd (executeEnabledModules mgr ctx (Some jobProgressCallback)
          (Some (jobCompletionCallback folderName totalModules download)) during2 job2)) =
   snd (snd (executeEnabledModules mgr ctx (Some jobProgressCallback)
          (Some (jobCompletionCallback folderName totalModules download)) during1 job1))"
proof -
  from executeEnabledModules_neverThrows
         [OF jobProgressCallback_neverThrows jobCompletionCallback_neverThrows,
          of mgr ctx folderName totalModules download during1 job1]
  obtain s1 where r1: "executeEnabledModules mgr ctx (Some jobProgressCallback)
          (Some (jobCompletionCallback folderName totalModules download)) during1 job1 =
       (Inr (map (moduleResult ctx) (getEnabledModules mgr)), s1,
        concat (map (\<lambda>im. moduleSteps im @ [Delay 500]) (getEnabledModules mgr)))"
    by blast
  from executeEnabledModules_neverThrows
         [OF jobProgressCallback_neverThrows jobCompletionCallback_neverThrows,
          of mgr ctx folderName totalModules download during2 job2]
  obtain s2 where r2: "executeEnabledModules mgr ctx (Some jobProgressCallback)
          (Some (jobCompletionCallback folderName totalModules download)) during2 job2 =
       (Inr (map (moduleResult ctx) (getEnabledModules mgr)), s2,
        concat (map (\<lambda>im. moduleSteps im @ [Delay 500]) (getEnabledModules mgr)))"
    by blast
  show ?thesis by (simp add: r1 r2)
qed

text \<open>
  The scenario of the specification: the job is cancelled after the first module has
  completed and before the second starts.  The second module is still initialised,
  validated and scraped and its result is returned; only the caller's closures react to
  the flag (no download and no popup message for the second module).
\<close>

theorem executeEnabledModules_cancellation_agnostic_witness:
  "executeEnabledModules (fst (enableModules [''licenses'', ''profiles''] stubManager))
     stubContext (Some jobProgressCallback)
     (Some (jobCompletionCallback ''Acme_2026-01-16'' 2 downloadOk)) cancelAfterFirst newJob =
   (Inr [\<lparr>moduleId = ''licenses'', moduleName = ''Licenses'', data = ''l'',
          filename = ''1_licenses'', success = True, error = None, rawData = Some ''l'',
          jsonPayload = Payload ''l'', dateFormat = None\<rparr>,
         \<lparr>moduleId = ''profiles'', moduleName = ''Profiles'', data = ''p'',
          filename = ''2_profiles'', success = True, error = None, rawData = Some ''p'',
          jsonPayload = Payload ''p'', dateFormat = None\<rparr>],
    \<lparr>cancelled = True, isExtractionActive = False, completedCount = 1,
      popup = [Forwarded (MODULE_STARTED ''licenses'' ''Licenses'' 1 2),
               MODULE_COMPLETED ''licenses'' ''Licenses'' None ''1_licenses.json'' 1 2],
      downloads = [(''Acme_2026-01-16/1_licenses.json'', Payload ''l'')]\<rparr>,
    [Initialize ''licenses'', Validate ''licenses'', Scrape ''licenses'', Delay 500,
     Initialize ''profiles'', Validate ''profiles'', Scrape ''profiles'', Delay 500]) \<and>
   fst (executeEnabledModules (fst (enableModules [''licenses'', ''profiles''] stubManager))
     stubContext (Some jobProgressCallback)
     (Some (jobCompletionCallback ''Acme_2026-01-16'' 2 downloadOk)) quiet newJob) =
   fst (executeEnabledModules (fst (enableModules [''licenses'', ''profiles''] stubManager))
     stubContext (Some jobProgressCallback)
     (Some (jobCompletionCallback ''Acme_2026-01-16'' 2 downloadOk)) cancelAfterFirst newJob)"
proof -
  let ?mgr = "fst (enableModules [''licenses'', ''profiles''] stubManager)"
  have run: "executeEnabledModules ?mgr stubContext (Some jobProgressCallback)
     (Some (jobCompletionCallback ''Acme_2026-01-16'' 2 downloadOk)) cancelAfterFirst newJob =
   (Inr [\<lparr>moduleId = ''licenses'', moduleName = ''Licenses'', data = ''l'',
          filename = ''1_licenses'', success = True, error = None, rawData = Some ''l'',
          jsonPayload = Payload ''l'', dateFormat = None\<rparr>,
         \<lparr>moduleId = ''profiles'', moduleName = ''Profiles'', data = ''p'',
          filename = ''2_profiles'', success = True, error = None, rawData = Some ''p'',
          jsonPayload = Payload ''p'', dateFormat = None\<rparr>],
    \<lparr>cancelled = True, isExtractionActive = False, completedCount = 1,
      popup = [Forwarded (MODULE_STARTED ''licenses'' ''Licenses'' 1 2),
               MODULE_COMPLETED ''licenses'' ''Licenses'' None ''1_licenses.json'' 1 2],
      downloads = [(''Acme_2026-01-16/1_licenses.json'', Payload ''l'')]\<rparr>,
    [Initialize ''licenses'', Validate ''licenses'', Scrape ''licenses'', Delay 500,
     Initialize ''profiles'', Validate ''profiles'', Scrape ''profiles'', Delay 500])"
    by (simp add: executeEnabledModules_def getEnabledModules_def enableModules_def
          stubManager_def registerModule_def newModuleManager_def stubModule_def moduleOfClass_def enable_def
          disable_def runModule_def tryModule_def notify_def buildResult_def jsonPayloadOf_def
          successResult_def stubContext_def jobProgressCallback_def jobCompletionCallback_def
          sendMessageToPopup_def cancelAfterFirst_def cancelExtraction_def downloadOk_def
          newJob_def)
  from executeEnabledModules_cancellation_agnostic
         [of ?mgr stubContext "''Acme_2026-01-16''" 2 downloadOk cancelAfterFirst newJob quiet newJob]
  show ?thesis by (simp add: run)
qed

section \<open>Properties of the health-check module\<close>

subsection \<open>The two loops\<close>

lemma separated_Cons:
  "ts \<noteq> [] \<Longrightarrow> separated f w (t # ts) = Probe f t # Sleep w # separated f w ts"
  by (cases ts) auto

lemma scrapeWithRetry_past:
  "MAX_SCRAPE_ATTEMPTS < a \<Longrightarrow> scrapeWithRetry page a (Some d) = ([], Inr d)"
  by (subst scrapeWithRetry.simps) simp

lemma scrapeWithRetry_fails:
  assumes "a \<le> MAX_SCRAPE_ATTEMPTS" and "attemptData page a = None"
  shows "\<exists>e. scrapeWithRetry page a h =
           ([Probe ''scrapeHealthCheckDataFunc'' (attemptTime page a)], Inl e)"
proof -
  obtain ms dataResult where p: "scrapeHealthCheckDataFunc page a = (ms, dataResult)" by force
  show ?thesis
    using assms
    by (subst scrapeWithRetry.simps)
       (auto simp: p attemptData_def attemptTime_def min_def split: sum.splits option.splits if_splits)
qed

lemma scrapeWithRetry_stops:
  assumes "a \<le> MAX_SCRAPE_ATTEMPTS" and "attemptData page a = Some d"
    and "\<not> looksLikeNoData (Some d)"
  shows "scrapeWithRetry page a h =
           ([Probe ''scrapeHealthCheckDataFunc'' (attemptTime page a)], Inr d)"
proof -
  obtain ms dataResult where p: "scrapeHealthCheckDataFunc page a = (ms, dataResult)" by force
  show ?thesis
    using assms
    by (subst scrapeWithRetry.simps)
       (auto simp: p attemptData_def attemptTime_def min_def split: sum.splits option.splits if_splits)
qed

lemma scrapeWithRetry_retries:
  assumes "a < MAX_SCRAPE_ATTEMPTS" and "attemptData page a = Some d"
    and "looksLikeNoData (Some d)"
  shows "scrapeWithRetry page a h =
           after [Probe ''scrapeHealthCheckDataFunc'' (attemptTime page a), Sleep RETRY_WAIT_MS]
             (scrapeWithRetry page (Suc a) (Some d))"
proof -
  obtain ms dataResult where p: "scrapeHealthCheckDataFunc page a = (ms, dataResult)" by force
  show ?thesis
    using assms
    by (subst scrapeWithRetry.simps)
       (auto simp: p attemptData_def attemptTime_def min_def split: sum.splits option.splits if_splits)
qed

lemma scrapeWithRetry_exhausted:
  assumes "attemptData page MAX_SCRAPE_ATTEMPTS = Some d" and "looksLikeNoData (Some d)"
  shows "scrapeWithRetry page MAX_SCRAPE_ATTEMPTS h =
           ([Probe ''scrapeHealthCheckDataFunc'' (attemptTime page MAX_SCRAPE_ATTEMPTS)], Inr d)"
proof -
  obtain ms dataResult where
    p: "scrapeHealthCheckDataFunc page MAX_SCRAPE_ATTEMPTS = (ms, dataResult)" by force
  have past: "scrapeWithRetry page (Suc MAX_SCRAPE_ATTEMPTS) (Some d) = ([], Inr d)"
    by (rule scrapeWithRetry_past) simp
  show ?thesis
    using assms
    by (subst scrapeWithRetry.simps)
       (auto simp: p past after_def attemptData_def attemptTime_def min_def
             split: sum.splits option.splits if_splits)
qed

lemma scrapeWithRetry_attempts:
  "a \<le> MAX_SCRAPE_ATTEMPTS \<Longrightarrow>
   \<exists>k. 1 \<le> k \<and> a + k \<le> Suc MAX_SCRAPE_ATTEMPTS \<and>
       fst (scrapeWithRetry page a h) =
         separated ''scrapeHealthCheckDataFunc'' RETRY_WAIT_MS
           (map (attemptTime page) [a..<a + k]) \<and>
       (\<forall>i. a \<le> i \<and> i < a + k - 1 \<longrightarrow> noDataYet page i) \<and>
       (a + k \<le> MAX_SCRAPE_ATTEMPTS \<longrightarrow> \<not> noDataYet page (a + k - 1))"
proof (induction "MAX_SCRAPE_ATTEMPTS - a" arbitrary: a h)
  case 0
  then have a: "a = MAX_SCRAPE_ATTEMPTS" by simp
  have "fst (scrapeWithRetry page a h) = [Probe ''scrapeHealthCheckDataFunc'' (attemptTime page a)]"
  proof (cases "attemptData page a")
    case None
    with scrapeWithRetry_fails [OF "0.prems" None, of h] show ?thesis by auto
  next
    case (Some d)
    then show ?thesis
      using scrapeWithRetry_stops [OF "0.prems" Some, of h]
        scrapeWithRetry_exhausted [of page d h] a
      by (cases "looksLikeNoData (Some d)") auto
  qed
  then show ?case using a by (intro exI [of _ 1]) auto
next
  case (Suc n)
  then have lt: "a < MAX_SCRAPE_ATTEMPTS" by simp
  show ?case
  proof (cases "noDataYet page a")
    case False
    have "fst (scrapeWithRetry page a h) = [Probe ''scrapeHealthCheckDataFunc'' (attemptTime page a)]"
    proof (cases "attemptData page a")
      case None
      with scrapeWithRetry_fails [OF Suc.prems None, of h] show ?thesis by auto
    next
      case (Some d)
      with False have "\<not> looksLikeNoData (Some d)" by (simp add: noDataYet_def)
      from scrapeWithRetry_stops [OF Suc.prems Some this, of h] show ?thesis by simp
    qed
    then show ?thesis using Suc.prems False by (intro exI [of _ 1]) auto
  next
    case True
    then obtain d where d: "attemptData page a = Some d" "looksLikeNoData (Some d)"
      by (auto simp: noDataYet_def split: option.splits)
    have n: "n = MAX_SCRAPE_ATTEMPTS - Suc a" using Suc.hyps(2) by simp
    have le: "Suc a \<le> MAX_SCRAPE_ATTEMPTS" using lt by simp
    from Suc.hyps(1) [OF n le, of "Some d"]
    obtain k where k: "1 \<le> k" "Suc a + k \<le> Suc MAX_SCRAPE_ATTEMPTS"
      "fst (scrapeWithRetry page (Suc a) (Some d)) =
         separated ''scrapeHealthCheckDataFunc'' RETRY_WAIT_MS
           (map (attemptTime page) [Suc a..<Suc a + k])"
      "\<forall>i. Suc a \<le> i \<and> i < Suc a + k - 1 \<longrightarrow> noDataYet page i"
      "Suc a + k \<le> MAX_SCRAPE_ATTEMPTS \<longrightarrow> \<not> noDataYet page (Suc a + k - 1)"
      by blast
    have upt: "[a..<a + Suc k] = a # [Suc a..<Suc a + k]"
      by (simp add: upt_conv_Cons)
    have ne: "map (attemptTime page) [Suc a..<Suc a + k] \<noteq> []" using k(1) by simp
    have step: "scrapeWithRetry page a h =
        after [Probe ''scrapeHealthCheckDataFunc'' (attemptTime page a), Sleep RETRY_WAIT_MS]
          (scrapeWithRetry page (Suc a) (Some d))"
      by (rule scrapeWithRetry_retries [OF lt d])
    have "fst (scrapeWithRetry page a h) =
            Probe ''scrapeHealthCheckDataFunc'' (attemptTime page a) # Sleep RETRY_WAIT_MS #
            separated ''scrapeHealthCheckDataFunc'' RETRY_WAIT_MS
              (map (attemptTime page) [Suc a..<Suc a + k])"
      by (simp only: step after_def fst_conv k(3) append_Cons append_Nil)
    also have "\<dots> = separated ''scrapeHealthCheckDataFunc'' RETRY_WAIT_MS
              (attemptTime page a # map (attemptTime page) [Suc a..<Suc a + k])"
      by (simp only: separated_Cons [OF ne])
    also have "\<dots> = separated ''scrapeHealthCheckDataFunc'' RETRY_WAIT_MS
              (map (attemptTime page) [a..<a + Suc k])"
      by (simp only: upt list.map)
    finally have "fst (scrapeWithRetry page a h) =
            separated ''scrapeHealthCheckDataFunc'' RETRY_WAIT_MS
              (map (attemptTime page) [a..<a + Suc k])" .
    moreover have "\<forall>i. a \<le> i \<and> i < a + Suc k - 1 \<longrightarrow> noDataYet page i"
    proof (intro allI impI)
      fix i assume i: "a \<le> i \<and> i < a + Suc k - 1"
      show "noDataYet page i"
      proof (cases "i = a")
        case True
        with \<open>noDataYet page a\<close> show ?thesis by simp
      next
        case False
        with i k(4) show ?thesis by auto
      qed
    qed
    moreover have "a + Suc k \<le> MAX_SCRAPE_ATTEMPTS \<longrightarrow> \<not> noDataYet page (a + Suc k - 1)"
      using k(5) by simp
    ultimately show ?thesis using k(1,2) by (intro exI [of _ "Suc k"]) auto
  qed
qed


lemma readinessLoop_past: "maxRetries \<le> rc \<Longrightarrow> readinessLoop page rc = ([], Inr False)"
  by (subst readinessLoop.simps) simp

lemma readinessLoop_stops:
  assumes "rc < maxRetries" and "\<not> notReady page (Suc rc)"
  shows "\<exists>out. readinessLoop page rc =
           ([Probe ''checkHealthCheckTablesReadyFunc'' (checkTime page (Suc rc))], out)"
proof -
  obtain ms r where p: "checkHealthCheckTablesReadyFunc page (Suc rc) = (ms, r)" by force
  show ?thesis
    using assms
    by (subst readinessLoop.simps)
       (auto simp: p notReady_def checkTime_def split: sum.splits option.splits)
qed

lemma readinessLoop_again:
  assumes "Suc rc < maxRetries" and "notReady page (Suc rc)"
  shows "readinessLoop page rc =
           after [Probe ''checkHealthCheckTablesReadyFunc'' (checkTime page (Suc rc)), Sleep 5000]
             (readinessLoop page (Suc rc))"
proof -
  obtain ms r where p: "checkHealthCheckTablesReadyFunc page (Suc rc) = (ms, r)" by force
  show ?thesis
    using assms
    by (subst readinessLoop.simps)
       (auto simp: p notReady_def checkTime_def split: sum.splits option.splits)
qed

lemma readinessLoop_gives_up:
  assumes "maxRetries = Suc rc" and "notReady page (Suc rc)"
  shows "readinessLoop page rc =
           ([Probe ''checkHealthCheckTablesReadyFunc'' (checkTime page (Suc rc))], Inr False)"
proof -
  obtain ms r where p: "checkHealthCheckTablesReadyFunc page (Suc rc) = (ms, r)" by force
  have lt: "rc < maxRetries" and nlt: "\<not> Suc rc < maxRetries" and le: "maxRetries \<le> Suc rc"
    using assms(1) by simp_all
  have past: "readinessLoop page (Suc rc) = ([], Inr False)"
    by (rule readinessLoop_past [OF le])
  show ?thesis
    using assms(2) lt nlt
    by (subst readinessLoop.simps)
       (auto simp: p past after_def notReady_def checkTime_def split: sum.splits option.splits)
qed

lemma upt_Suc_Cons: "[Suc a..<Suc (Suc a) + k] = Suc a # [Suc (Suc a)..<Suc (Suc a) + k]"
  by (simp add: upt_conv_Cons)

lemma readinessLoop_checks:
  "rc < maxRetries \<Longrightarrow>
   \<exists>k. 1 \<le> k \<and> rc + k \<le> maxRetries \<and>
       fst (readinessLoop page rc) =
         separated ''checkHealthCheckTablesReadyFunc'' 5000
           (map (checkTime page) [Suc rc..<Suc rc + k]) \<and>
       (\<forall>i. rc < i \<and> i < rc + k \<longrightarrow> notReady page i)"
proof (induction "maxRetries - rc" arbitrary: rc)
  case 0
  then show ?case by simp
next
  case (Suc n)
  show ?case
  proof (cases "notReady page (Suc rc) \<and> Suc rc < maxRetries")
    case False
    have "fst (readinessLoop page rc) =
            [Probe ''checkHealthCheckTablesReadyFunc'' (checkTime page (Suc rc))]"
    proof (cases "notReady page (Suc rc)")
      case True
      with False Suc.prems have "maxRetries = Suc rc" by simp
      from readinessLoop_gives_up [OF this True] show ?thesis by simp
    next
      case False
      from readinessLoop_stops [OF Suc.prems False] show ?thesis by auto
    qed
    then show ?thesis using Suc.prems by (intro exI [of _ 1]) auto
  next
    case True
    then have nr: "notReady page (Suc rc)" and lt: "Suc rc < maxRetries" by simp_all
    have n: "n = maxRetries - Suc rc" using Suc.hyps(2) by simp
    from Suc.hyps(1) [OF n lt]
    obtain k where k: "1 \<le> k" "Suc rc + k \<le> maxRetries"
      "fst (readinessLoop page (Suc rc)) =
         separated ''checkHealthCheckTablesReadyFunc'' 5000
           (map (checkTime page) [Suc (Suc rc)..<Suc (Suc rc) + k])"
      "\<forall>i. Suc rc < i \<and> i < Suc rc + k \<longrightarrow> notReady page i"
      by blast
    have ne: "map (checkTime page) [Suc (Suc rc)..<Suc (Suc rc) + k] \<noteq> []" using k(1) by simp
    have "fst (readinessLoop page rc) =
            Probe ''checkHealthCheckTablesReadyFunc'' (checkTime page (Suc rc)) # Sleep 5000 #
            separated ''checkHealthCheckTablesReadyFunc'' 5000
              (map (checkTime page) [Suc (Suc rc)..<Suc (Suc rc) + k])"
      by (simp only: readinessLoop_again [OF lt nr] after_def fst_conv k(3) append_Cons append_Nil)
    also have "\<dots> = separated ''checkHealthCheckTablesReadyFunc'' 5000
              (checkTime page (Suc rc) # map (checkTime page) [Suc (Suc rc)..<Suc (Suc rc) + k])"
      by (simp only: separated_Cons [OF ne])
    also have "\<dots> = separated ''checkHealthCheckTablesReadyFunc'' 5000
              (map (checkTime page) [Suc rc..<Suc (Suc rc) + k])"
      by (simp only: upt_Suc_Cons list.map)
    finally have "fst (readinessLoop page rc) =
            separated ''checkHealthCheckTablesReadyFunc'' 5000
              (map (checkTime page) [Suc rc..<Suc rc + Suc k])" by simp
    moreover have "\<forall>i. rc < i \<and> i < rc + Suc k \<longrightarrow> notReady page i"
    proof (intro allI impI)
      fix i assume i: "rc < i \<and> i < rc + Suc k"
      show "notReady page i"
      proof (cases "i = Suc rc")
        case True
        with nr show ?thesis by simp
      next
        case False
        with i k(4) show ?thesis by auto
      qed
    qed
    ultimately show ?thesis using k(1,2) by (intro exI [of _ "Suc k"]) auto
  qed
qed


lemma looksLikeNoData_iff:
  "looksLikeNoData (Some d) \<longleftrightarrow>
     (trim (percentage d) = ''0%'' \<or> trim (percentage d) = ''N/A'' \<or> trim (percentage d) = []) \<and>
     settings d = [] \<and> highRisk d = [] \<and> mediumRisk d = []"
  by (auto simp: looksLikeNoData_def Let_def)


lemma healthCheckSteps_navigated:
  assumes "snd (searchFunc page) = Inr r1" and "navigated r1"
    and "snd (clickHealthCheckLinkFunc page) = Inr r2" and "navigated r2"
  shows "healthCheckSteps page =
           after [Probe ''searchFunc'' (fst (searchFunc page)), Sleep 2000,
                  Probe ''clickHealthCheckLinkFunc'' (fst (clickHealthCheckLinkFunc page)),
                  Sleep INITIAL_PAGE_LOAD_MS]
             (afterPageLoad page)"
proof -
  obtain ms1 where s: "searchFunc page = (ms1, Inr r1)" using assms(1) by (cases "searchFunc page") auto
  obtain ms2 where c: "clickHealthCheckLinkFunc page = (ms2, Inr r2)"
    using assms(3) by (cases "clickHealthCheckLinkFunc page") auto
  show ?thesis
    unfolding healthCheckSteps_def s c using assms(2,4) by simp
qed

lemma probesOf_append: "probesOf f (xs @ ys) = probesOf f xs + probesOf f ys"
  by (simp add: probesOf_def)

lemma probesOf_separated:
  "probesOf f (separated g w ts) = (if g = f then length ts else 0)"
  by (induction g w ts rule: separated.induct) (auto simp: probesOf_def)



lemma healthCheckScrape_timer:
  "tabsGet page = Inr () \<Longrightarrow>
   healthCheckScrape page =
     (if elapsed (fst (healthCheckSteps page)) < 150000 then snd (healthCheckSteps page)
      else Inl (Error ''Timeout: Health Check operation took too long (exceeded 150 seconds)''))"
  by (cases "healthCheckSteps page") (simp add: healthCheckScrape_def)

lemma healthCheckSteps_not_navigated:
  assumes "\<not> (\<exists>r1 r2. snd (searchFunc page) = Inr r1 \<and> navigated r1 \<and>
                     snd (clickHealthCheckLinkFunc page) = Inr r2 \<and> navigated r2)"
  shows "fst (healthCheckSteps page) = take 1 (navigationTrace page) \<or>
         fst (healthCheckSteps page) = take 3 (navigationTrace page)"
proof -
  obtain ms1 o1 where s: "searchFunc page = (ms1, o1)" by force
  obtain ms2 o2 where c: "clickHealthCheckLinkFunc page = (ms2, o2)" by force
  show ?thesis
    using assms
    by (auto simp: healthCheckSteps_def navigationTrace_def s c split: sum.splits)
qed

lemma afterPageLoad_structure:
  "\<exists>x y. fst (afterPageLoad page) = fst (readinessLoop page 0) @ x @ y \<and>
         (x = [] \<or> x = take 1 (expansionTrace page True) \<or> x = expansionTrace page True) \<and>
         (y = [] \<or> y = fst (scrapeWithRetry page 1 None))"
proof -
  obtain polling out where r: "readinessLoop page 0 = (polling, out)" by force
  obtain ms o3 where e: "expandHealthCheckSectionsFunc page = (ms, o3)" by force
  show ?thesis
  proof (cases out)
    case (Inl err)
    then have "fst (afterPageLoad page) = fst (readinessLoop page 0) @ [] @ []"
      by (simp add: afterPageLoad_def r)
    then show ?thesis by blast
  next
    case (Inr tablesFound)
    show ?thesis
    proof (cases tablesFound)
      case False
      with Inr have "fst (afterPageLoad page) =
          fst (readinessLoop page 0) @ [] @ fst (scrapeWithRetry page 1 None)"
        by (simp add: afterPageLoad_def r after_def)
      then show ?thesis by blast
    next
      case True
      show ?thesis
      proof (cases o3)
        case (Inl err)
        with True Inr have "fst (afterPageLoad page) =
            fst (readinessLoop page 0) @ take 1 (expansionTrace page True) @ []"
          by (simp add: afterPageLoad_def r e expansionTrace_def)
        then show ?thesis by blast
      next
        case (Inr u)
        with True \<open>out = Inr tablesFound\<close> have "fst (afterPageLoad page) =
            fst (readinessLoop page 0) @ expansionTrace page True @
            fst (scrapeWithRetry page 1 None)"
          by (simp add: afterPageLoad_def r e expansionTrace_def after_def)
        then show ?thesis by blast
      qed
    qed
  qed
qed

lemma afterPageLoad_reaches:
  assumes "readinessLoop page 0 = (polling, Inr tablesFound)"
    and "tablesFound \<longrightarrow> snd (expandHealthCheckSectionsFunc page) = Inr ()"
  shows "afterPageLoad page =
           after (polling @ expansionTrace page tablesFound) (scrapeWithRetry page 1 None)"
proof (cases tablesFound)
  case False
  then show ?thesis by (simp add: afterPageLoad_def assms(1) expansionTrace_def)
next
  case True
  with assms(2) obtain ms where "expandHealthCheckSectionsFunc page = (ms, Inr ())"
    by (cases "expandHealthCheckSectionsFunc page") auto
  with True show ?thesis by (simp add: afterPageLoad_def assms(1) expansionTrace_def)
qed

lemma healthCheckSteps_reaches:
  assumes "snd (searchFunc page) = Inr r1" and "navigated r1"
    and "snd (clickHealthCheckLinkFunc page) = Inr r2" and "navigated r2"
    and "readinessLoop page 0 = (polling, Inr tablesFound)"
    and "tablesFound \<longrightarrow> snd (expandHealthCheckSectionsFunc page) = Inr ()"
  shows "healthCheckSteps page =
           after (navigationTrace page @ polling @ expansionTrace page tablesFound)
             (scrapeWithRetry page 1 None)"
  by (simp add: healthCheckSteps_navigated [OF assms(1-4)] afterPageLoad_reaches [OF assms(5,6)]
        after_def navigationTrace_def)

lemma healthCheckSteps_structure:
  "\<exists>pre polling x y.
     fst (healthCheckSteps page) = pre @ polling @ x @ y \<and>
     (pre = take 1 (navigationTrace page) \<or> pre = take 3 (navigationTrace page) \<or>
      pre = navigationTrace page) \<and>
     (polling = [] \<or> polling = fst (readinessLoop page 0)) \<and>
     (x = [] \<or> x = take 1 (expansionTrace page True) \<or> x = expansionTrace page True) \<and>
     (y = [] \<or> y = fst (scrapeWithRetry page 1 None))"
proof (cases "\<exists>r1 r2. snd (searchFunc page) = Inr r1 \<and> navigated r1 \<and>
                     snd (clickHealthCheckLinkFunc page) = Inr r2 \<and> navigated r2")
  case False
  from healthCheckSteps_not_navigated [OF False]
  have "fst (healthCheckSteps page) = take 1 (navigationTrace page) @ [] @ [] @ [] \<or>
        fst (healthCheckSteps page) = take 3 (navigationTrace page) @ [] @ [] @ []"
    by simp
  then show ?thesis by blast
next
  case True
  then obtain r1 r2 where nav: "snd (searchFunc page) = Inr r1" "navigated r1"
     "snd (clickHealthCheckLinkFunc page) = Inr r2" "navigated r2" by blast
  from afterPageLoad_structure [of page] obtain x y where
    xy: "fst (afterPageLoad page) = fst (readinessLoop page 0) @ x @ y"
        "x = [] \<or> x = take 1 (expansionTrace page True) \<or> x = expansionTrace page True"
        "y = [] \<or> y = fst (scrapeWithRetry page 1 None)"
    by blast
  have "fst (healthCheckSteps page) = navigationTrace page @ fst (readinessLoop page 0) @ x @ y"
    by (simp add: healthCheckSteps_navigated [OF nav] after_def xy(1) navigationTrace_def)
  with xy(2,3) show ?thesis by blast
qed

lemma probesOf_navigation:
  assumes "f \<noteq> ''searchFunc''" and "f \<noteq> ''clickHealthCheckLinkFunc''"
    and "pre = take 1 (navigationTrace page) \<or> pre = take 3 (navigationTrace page) \<or>
         pre = navigationTrace page"
  shows "probesOf f pre = 0"
  using assms by (auto simp: probesOf_def navigationTrace_def)

lemma probesOf_expansion:
  assumes "f \<noteq> ''expandHealthCheckSectionsFunc''"
    and "x = [] \<or> x = take 1 (expansionTrace page True) \<or> x = expansionTrace page True"
  shows "probesOf f x = 0"
  using assms by (auto simp: probesOf_def expansionTrace_def)

lemma probesOf_polling:
  "f \<noteq> ''checkHealthCheckTablesReadyFunc'' \<Longrightarrow> probesOf f (fst (readinessLoop page 0)) = 0"
proof -
  assume f: "f \<noteq> ''checkHealthCheckTablesReadyFunc''"
  have "0 < maxRetries" by (simp add: maxRetries_def)
  from readinessLoop_checks [OF this, of page] obtain k where
    "fst (readinessLoop page 0) =
         separated ''checkHealthCheckTablesReadyFunc'' 5000
           (map (checkTime page) [Suc 0..<Suc 0 + k])" by blast
  with f show ?thesis by (simp only: probesOf_separated) simp
qed


lemma healthCheckSteps_scrape_attempts:
  "\<exists>pre k. k \<le> MAX_SCRAPE_ATTEMPTS \<and>
        fst (healthCheckSteps page) =
          pre @ separated ''scrapeHealthCheckDataFunc'' RETRY_WAIT_MS
                  (map (attemptTime page) [1..<Suc k]) \<and>
        probesOf ''scrapeHealthCheckDataFunc'' pre = 0 \<and>
        (\<forall>i. 1 \<le> i \<and> i < k \<longrightarrow> noDataYet page i) \<and>
        (1 \<le> k \<and> k < MAX_SCRAPE_ATTEMPTS \<longrightarrow> \<not> noDataYet page k)"
proof -
  from healthCheckSteps_structure [of page] obtain pre polling x y where
    s: "fst (healthCheckSteps page) = pre @ polling @ x @ y"
    and pre: "pre = take 1 (navigationTrace page) \<or> pre = take 3 (navigationTrace page) \<or>
              pre = navigationTrace page"
    and polling: "polling = [] \<or> polling = fst (readinessLoop page 0)"
    and x: "x = [] \<or> x = take 1 (expansionTrace page True) \<or> x = expansionTrace page True"
    and y: "y = [] \<or> y = fst (scrapeWithRetry page 1 None)"
    by blast
  have p1: "probesOf ''scrapeHealthCheckDataFunc'' pre = 0"
    by (rule probesOf_navigation [OF _ _ pre]) simp_all
  have p2: "probesOf ''scrapeHealthCheckDataFunc'' polling = 0"
    using polling probesOf_polling [of "''scrapeHealthCheckDataFunc''" page]
    by (auto simp: probesOf_def)
  have p3: "probesOf ''scrapeHealthCheckDataFunc'' x = 0"
    by (rule probesOf_expansion [OF _ x]) simp
  have none: "probesOf ''scrapeHealthCheckDataFunc'' (pre @ polling @ x) = 0"
    by (simp add: probesOf_append p1 p2 p3)
  from y show ?thesis
  proof
    assume "y = []"
    with s have "fst (healthCheckSteps page) =
          (pre @ polling @ x) @ separated ''scrapeHealthCheckDataFunc'' RETRY_WAIT_MS
                  (map (attemptTime page) [1..<Suc 0])" by simp
    with none show ?thesis by (intro exI [of _ "pre @ polling @ x"] exI [of _ 0]) simp
  next
    assume y: "y = fst (scrapeWithRetry page 1 None)"
    have "(1::nat) \<le> MAX_SCRAPE_ATTEMPTS" by (simp add: MAX_SCRAPE_ATTEMPTS_def)
    from scrapeWithRetry_attempts [OF this, of page None]
    obtain k where k: "1 \<le> k" "1 + k \<le> Suc MAX_SCRAPE_ATTEMPTS"
      "fst (scrapeWithRetry page 1 None) =
         separated ''scrapeHealthCheckDataFunc'' RETRY_WAIT_MS
           (map (attemptTime page) [1..<1 + k])"
      "\<forall>i. 1 \<le> i \<and> i < 1 + k - 1 \<longrightarrow> noDataYet page i"
      "1 + k \<le> MAX_SCRAPE_ATTEMPTS \<longrightarrow> \<not> noDataYet page (1 + k - 1)"
      by blast
    have "fst (healthCheckSteps page) =
          (pre @ polling @ x) @ separated ''scrapeHealthCheckDataFunc'' RETRY_WAIT_MS
                  (map (attemptTime page) [1..<Suc k])"
      using s y k(3) by simp
    with none k(1,2,4,5) show ?thesis
      by (intro exI [of _ "pre @ polling @ x"] exI [of _ k]) simp
  qed
qed


lemma scrapeWithRetry_three:
  assumes n1: "noDataYet page 1" and n2: "noDataYet page 2"
      and d3: "attemptData page 3 = Some d3" "looksLikeNoData (Some d3)"
  shows "scrapeWithRetry page 1 None =
        ([Probe ''scrapeHealthCheckDataFunc'' (attemptTime page 1), Sleep 10000,
          Probe ''scrapeHealthCheckDataFunc'' (attemptTime page 2), Sleep 10000,
          Probe ''scrapeHealthCheckDataFunc'' (attemptTime page 3)], Inr d3)"
proof -
  from n1 obtain d1 where d1: "attemptData page 1 = Some d1" "looksLikeNoData (Some d1)"
    by (auto simp: noDataYet_def split: option.splits)
  from n2 obtain d2 where d2: "attemptData page 2 = Some d2" "looksLikeNoData (Some d2)"
    by (auto simp: noDataYet_def split: option.splits)
  have s1: "scrapeWithRetry page 1 None =
      after [Probe ''scrapeHealthCheckDataFunc'' (attemptTime page 1), Sleep RETRY_WAIT_MS]
        (scrapeWithRetry page (Suc 1) (Some d1))"
    by (rule scrapeWithRetry_retries [OF _ d1]) (simp add: MAX_SCRAPE_ATTEMPTS_def)
  have s2: "scrapeWithRetry page 2 (Some d1) =
      after [Probe ''scrapeHealthCheckDataFunc'' (attemptTime page 2), Sleep RETRY_WAIT_MS]
        (scrapeWithRetry page (Suc 2) (Some d2))"
    by (rule scrapeWithRetry_retries [OF _ d2]) (simp add: MAX_SCRAPE_ATTEMPTS_def)
  have s3: "scrapeWithRetry page 3 (Some d2) =
      ([Probe ''scrapeHealthCheckDataFunc'' (attemptTime page 3)], Inr d3)"
    using scrapeWithRetry_exhausted [of page d3 "Some d2"] d3
    by (simp add: MAX_SCRAPE_ATTEMPTS_def)
  have e2: "Suc 1 = (2::nat)" and e3: "Suc 2 = (3::nat)" by simp_all
  show ?thesis
    unfolding s1 e2 s2 e3 s3 after_def RETRY_WAIT_MS_def by simp
qed

subsection \<open>The loops within the module\<close>

text \<open>
  Claim C7, as stated, on a page where the tables are there at the first check and every
  scrape takes 45 seconds and finds a score of \<^verbatim>\<open>0%\<close> and no rows.  All three attempts
  return data that matches the no-data heuristic, and the retry loop by itself ends with
  the data of the third attempt.  But 179.4 seconds have passed by then since the module
  set its 150 second timer, which has rejected the promise: \<^verbatim>\<open>scrape\<close> raises the
  timeout error instead of resolving with the data it has.
\<close>

theorem slow_retries_counterexample:
  "noDataYet slowScrapePage 1 \<and> noDataYet slowScrapePage 2 \<and> noDataYet slowScrapePage 3 \<and>
   snd (scrapeWithRetry slowScrapePage 1 None) = Inr emptyData \<and>
   elapsed (fst (healthCheckSteps slowScrapePage)) = 179400 \<and>
   healthCheckScrape slowScrapePage =
     Inl (Error ''Timeout: Health Check operation took too long (exceeded 150 seconds)'')"
proof -
  have a: "attemptData slowScrapePage i = Some emptyData" for i
    by (simp add: attemptData_def slowScrapePage_def emptyPage_def emptyData_def
          SCRAPE_TIMEOUT_MS_def)
  have l: "looksLikeNoData (Some emptyData)"
    by (simp add: looksLikeNoData_def emptyData_def trim_def isWhiteSpace_def)
  have n: "noDataYet slowScrapePage i" for i
    by (simp add: noDataYet_def a l)
  have steps: "healthCheckSteps slowScrapePage =
     ([Probe ''searchFunc'' 100, Sleep 2000, Probe ''clickHealthCheckLinkFunc'' 100, Sleep 12000,
       Probe ''checkHealthCheckTablesReadyFunc'' 100,
       Probe ''expandHealthCheckSectionsFunc'' 100, Sleep 2000, Sleep 8000,
       Probe ''scrapeHealthCheckDataFunc'' 45000, Sleep 10000,
       Probe ''scrapeHealthCheckDataFunc'' 45000, Sleep 10000,
       Probe ''scrapeHealthCheckDataFunc'' 45000], Inr emptyData)"
    by (simp add: healthCheckSteps_def afterPageLoad_def readinessLoop.simps
          scrapeWithRetry.simps slowScrapePage_def emptyPage_def navigated_def after_def
          maxRetries_def MAX_SCRAPE_ATTEMPTS_def SCRAPE_TIMEOUT_MS_def RETRY_WAIT_MS_def
          looksLikeNoData_def emptyData_def trim_def isWhiteSpace_def INITIAL_PAGE_LOAD_MS_def)
  have loop: "snd (scrapeWithRetry slowScrapePage 1 None) = Inr emptyData"
    by (simp add: scrapeWithRetry.simps slowScrapePage_def emptyPage_def after_def
          MAX_SCRAPE_ATTEMPTS_def SCRAPE_TIMEOUT_MS_def RETRY_WAIT_MS_def
          looksLikeNoData_def emptyData_def trim_def isWhiteSpace_def)
  have time: "elapsed (fst (healthCheckSteps slowScrapePage)) = 179400"
    by (simp add: steps elapsed_def)
  have whole: "healthCheckScrape slowScrapePage =
     Inl (Error ''Timeout: Health Check operation took too long (exceeded 150 seconds)'')"
  proof -
    have tab: "tabsGet slowScrapePage = Inr ()" by (simp add: slowScrapePage_def emptyPage_def)
    show ?thesis by (simp only: healthCheckScrape_timer [OF tab] time) simp
  qed
  from n loop time whole show ?thesis by blast
qed

text \<open>
  Claim C7, amended.  In every run of the health-check module's \<^verbatim>\<open>scrape\<close> there are at
  most 3 scrape attempts; they come last, with a wait of exactly 10 seconds between two
  attempts and none after the last.  A further attempt is made only after an attempt that
  returned data matching the no-data heuristic (a score that is \<^verbatim>\<open>0%\<close>, \<^verbatim>\<open>N/A\<close> or empty
  after trimming, together with no setting, no high-risk and no medium-risk row), and such
  an attempt is always followed by a further one unless it was the third.  When Steps 1 to
  4 succeed and all three attempts return such data, the steps end without an error with
  the data of the third attempt, and \<^verbatim>\<open>scrape\<close> resolves with that data provided the
  whole (Steps 1 to 4, the three attempts and the two waits of 10 seconds) took less than
  the 150 seconds of the module's timer; otherwise \<^verbatim>\<open>scrape\<close> rejects with the timeout
  error.
\<close>

theorem healthCheckScrape_retries_bounded:
  "MAX_SCRAPE_ATTEMPTS = 3 \<and> RETRY_WAIT_MS = 10000 \<and>
   (\<exists>pre k. k \<le> MAX_SCRAPE_ATTEMPTS \<and>
        fst (healthCheckSteps page) =
          pre @ separated ''scrapeHealthCheckDataFunc'' RETRY_WAIT_MS
                  (map (attemptTime page) [1..<Suc k]) \<and>
        probesOf ''scrapeHealthCheckDataFunc'' pre = 0 \<and>
        (\<forall>i. 1 \<le> i \<and> i < k \<longrightarrow> noDataYet page i) \<and>
        (1 \<le> k \<and> k < MAX_SCRAPE_ATTEMPTS \<longrightarrow> \<not> noDataYet page k)) \<and>
   probesOf ''scrapeHealthCheckDataFunc'' (fst (healthCheckSteps page)) \<le> 3 \<and>
   (\<forall>d. looksLikeNoData (Some d) \<longleftrightarrow>
      (trim (percentage d) = ''0%'' \<or> trim (percentage d) = ''N/A'' \<or> trim (percentage d) = []) \<and>
      settings d = [] \<and> highRisk d = [] \<and> mediumRisk d = []) \<and>
   (tabsGet page = Inr () \<and>
    snd (searchFunc page) = Inr r1 \<and> navigated r1 \<and>
    snd (clickHealthCheckLinkFunc page) = Inr r2 \<and> navigated r2 \<and>
    readinessLoop page 0 = (polling, Inr tablesFound) \<and>
    (tablesFound \<longrightarrow> snd (expandHealthCheckSectionsFunc page) = Inr ()) \<and>
    noDataYet page 1 \<and> noDataYet page 2 \<and> attemptData page 3 = Some d3 \<and>
    looksLikeNoData (Some d3) \<longrightarrow>
      healthCheckSteps page =
        (navigationTrace page @ polling @ expansionTrace page tablesFound @
         [Probe ''scrapeHealthCheckDataFunc'' (attemptTime page 1), Sleep 10000,
          Probe ''scrapeHealthCheckDataFunc'' (attemptTime page 2), Sleep 10000,
          Probe ''scrapeHealthCheckDataFunc'' (attemptTime page 3)], Inr d3) \<and>
      healthCheckScrape page =
        (if elapsed (navigationTrace page @ polling @ expansionTrace page tablesFound) +
            attemptTime page 1 + attemptTime page 2 + attemptTime page 3 + 20000 < 150000
         then Inr d3
         else Inl (Error
           ''Timeout: Health Check operation took too long (exceeded 150 seconds)'')))"
proof -
  from healthCheckSteps_scrape_attempts [of page] obtain pre k where
    k: "k \<le> MAX_SCRAPE_ATTEMPTS"
       "fst (healthCheckSteps page) =
          pre @ separated ''scrapeHealthCheckDataFunc'' RETRY_WAIT_MS
                  (map (attemptTime page) [1..<Suc k])"
       "probesOf ''scrapeHealthCheckDataFunc'' pre = 0"
       "\<forall>i. 1 \<le> i \<and> i < k \<longrightarrow> noDataYet page i"
       "1 \<le> k \<and> k < MAX_SCRAPE_ATTEMPTS \<longrightarrow> \<not> noDataYet page k"
    by blast
  have count: "probesOf ''scrapeHealthCheckDataFunc'' (fst (healthCheckSteps page)) \<le> 3"
    using k(1) by (simp add: k(2,3) probesOf_append probesOf_separated MAX_SCRAPE_ATTEMPTS_def)
  have shape: "\<exists>pre k. k \<le> MAX_SCRAPE_ATTEMPTS \<and>
        fst (healthCheckSteps page) =
          pre @ separated ''scrapeHealthCheckDataFunc'' RETRY_WAIT_MS
                  (map (attemptTime page) [1..<Suc k]) \<and>
        probesOf ''scrapeHealthCheckDataFunc'' pre = 0 \<and>
        (\<forall>i. 1 \<le> i \<and> i < k \<longrightarrow> noDataYet page i) \<and>
        (1 \<le> k \<and> k < MAX_SCRAPE_ATTEMPTS \<longrightarrow> \<not> noDataYet page k)"
    by (rule healthCheckSteps_scrape_attempts)
  have exhausted: "healthCheckSteps page =
        (navigationTrace page @ polling @ expansionTrace page tablesFound @
         [Probe ''scrapeHealthCheckDataFunc'' (attemptTime page 1), Sleep 10000,
          Probe ''scrapeHealthCheckDataFunc'' (attemptTime page 2), Sleep 10000,
          Probe ''scrapeHealthCheckDataFunc'' (attemptTime page 3)], Inr d3) \<and>
      healthCheckScrape page =
        (if elapsed (navigationTrace page @ polling @ expansionTrace page tablesFound) +
            attemptTime page 1 + attemptTime page 2 + attemptTime page 3 + 20000 < 150000
         then Inr d3
         else Inl (Error
           ''Timeout: Health Check operation took too long (exceeded 150 seconds)''))"
    if tab: "tabsGet page = Inr ()"
      and nav: "snd (searchFunc page) = Inr r1" "navigated r1"
               "snd (clickHealthCheckLinkFunc page) = Inr r2" "navigated r2"
      and loop: "readinessLoop page 0 = (polling, Inr tablesFound)"
                "tablesFound \<longrightarrow> snd (expandHealthCheckSectionsFunc page) = Inr ()"
      and n: "noDataYet page 1" "noDataYet page 2"
             "attemptData page 3 = Some d3" "looksLikeNoData (Some d3)"
  proof -
    have steps: "healthCheckSteps page =
        (navigationTrace page @ polling @ expansionTrace page tablesFound @
         [Probe ''scrapeHealthCheckDataFunc'' (attemptTime page 1), Sleep 10000,
          Probe ''scrapeHealthCheckDataFunc'' (attemptTime page 2), Sleep 10000,
          Probe ''scrapeHealthCheckDataFunc'' (attemptTime page 3)], Inr d3)"
      unfolding healthCheckSteps_reaches [OF nav loop] scrapeWithRetry_three [OF n] after_def
      by simp
    have time: "elapsed (fst (healthCheckSteps page)) =
        elapsed (navigationTrace page @ polling @ expansionTrace page tablesFound) +
            attemptTime page 1 + attemptTime page 2 + attemptTime page 3 + 20000"
      by (simp add: steps elapsed_def)
    show ?thesis
      by (simp only: healthCheckScrape_timer [OF tab] time) (simp add: steps)
  qed
  show ?thesis
    using shape count exhausted
    by (simp add: MAX_SCRAPE_ATTEMPTS_def RETRY_WAIT_MS_def looksLikeNoData_iff)
qed

theorem healthCheckScrape_retries_bounded_witness:
  "tabsGet emptyPage = Inr () \<and>
   readinessLoop emptyPage 0 = ([Probe ''checkHealthCheckTablesReadyFunc'' 100], Inr True) \<and>
   noDataYet emptyPage 1 \<and> noDataYet emptyPage 2 \<and> attemptData emptyPage 3 = Some emptyData \<and>
   looksLikeNoData (Some emptyData) \<and>
   healthCheckSteps emptyPage =
     ([Probe ''searchFunc'' 100, Sleep 2000, Probe ''clickHealthCheckLinkFunc'' 100, Sleep 12000,
       Probe ''checkHealthCheckTablesReadyFunc'' 100,
       Probe ''expandHealthCheckSectionsFunc'' 100, Sleep 2000, Sleep 8000,
       Probe ''scrapeHealthCheckDataFunc'' 100, Sleep 10000,
       Probe ''scrapeHealthCheckDataFunc'' 100, Sleep 10000,
       Probe ''scrapeHealthCheckDataFunc'' 100], Inr emptyData) \<and>
   healthCheckScrape emptyPage = Inr emptyData"
proof -
  let ?ok = "Some \<lparr>navSuccess = True, navError = []\<rparr>"
  have h1: "tabsGet emptyPage = Inr ()" by (simp add: emptyPage_def)
  have h2: "snd (searchFunc emptyPage) = Inr ?ok" by (simp add: emptyPage_def)
  have h3: "navigated ?ok" by (simp add: navigated_def)
  have h4: "snd (clickHealthCheckLinkFunc emptyPage) = Inr ?ok" by (simp add: emptyPage_def)
  have h5: "readinessLoop emptyPage 0 =
      ([Probe ''checkHealthCheckTablesReadyFunc'' 100], Inr True)"
    by (simp add: readinessLoop.simps emptyPage_def maxRetries_def)
  have h6: "True \<longrightarrow> snd (expandHealthCheckSectionsFunc emptyPage) = Inr ()"
    by (simp add: emptyPage_def)
  have a: "attemptData emptyPage i = Some emptyData" for i
    by (simp add: attemptData_def emptyPage_def emptyData_def SCRAPE_TIMEOUT_MS_def)
  have l: "looksLikeNoData (Some emptyData)"
    by (simp add: looksLikeNoData_def emptyData_def trim_def isWhiteSpace_def)
  have n: "noDataYet emptyPage i" for i
    by (simp add: noDataYet_def a l)
  have t: "attemptTime emptyPage i = 100" for i
    by (simp add: attemptTime_def emptyPage_def SCRAPE_TIMEOUT_MS_def)
  have nav: "navigationTrace emptyPage =
      [Probe ''searchFunc'' 100, Sleep 2000, Probe ''clickHealthCheckLinkFunc'' 100, Sleep 12000]"
    by (simp add: navigationTrace_def emptyPage_def INITIAL_PAGE_LOAD_MS_def)
  have ex: "expansionTrace emptyPage True =
      [Probe ''expandHealthCheckSectionsFunc'' 100, Sleep 2000, Sleep 8000]"
    by (simp add: expansionTrace_def emptyPage_def)
  from healthCheckScrape_retries_bounded
         [of emptyPage ?ok ?ok "[Probe ''checkHealthCheckTablesReadyFunc'' 100]" True emptyData]
  have "tabsGet emptyPage = Inr () \<and>
    snd (searchFunc emptyPage) = Inr ?ok \<and> navigated ?ok \<and>
    snd (clickHealthCheckLinkFunc emptyPage) = Inr ?ok \<and> navigated ?ok \<and>
    readinessLoop emptyPage 0 = ([Probe ''checkHealthCheckTablesReadyFunc'' 100], Inr True) \<and>
    (True \<longrightarrow> snd (expandHealthCheckSectionsFunc emptyPage) = Inr ()) \<and>
    noDataYet emptyPage 1 \<and> noDataYet emptyPage 2 \<and> attemptData emptyPage 3 = Some emptyData \<and>
    looksLikeNoData (Some emptyData) \<longrightarrow>
      healthCheckSteps emptyPage =
        (navigationTrace emptyPage @ [Probe ''checkHealthCheckTablesReadyFunc'' 100] @
         expansionTrace emptyPage True @
         [Probe ''scrapeHealthCheckDataFunc'' (attemptTime emptyPage 1), Sleep 10000,
          Probe ''scrapeHealthCheckDataFunc'' (attemptTime emptyPage 2), Sleep 10000,
          Probe ''scrapeHealthCheckDataFunc'' (attemptTime emptyPage 3)], Inr emptyData) \<and>
      healthCheckScrape emptyPage =
        (if elapsed (navigationTrace emptyPage @ [Probe ''checkHealthCheckTablesReadyFunc'' 100] @
                     expansionTrace emptyPage True) +
            attemptTime emptyPage 1 + attemptTime emptyPage 2 + attemptTime emptyPage 3 + 20000
            < 150000
         then Inr emptyData
         else Inl (Error
           ''Timeout: Health Check operation took too long (exceeded 150 seconds)''))"
    by (elim conjE)
  with h1 h2 h3 h4 h5 h6 a l n
  have "healthCheckSteps emptyPage =
        (navigationTrace emptyPage @ [Probe ''checkHealthCheckTablesReadyFunc'' 100] @
         expansionTrace emptyPage True @
         [Probe ''scrapeHealthCheckDataFunc'' (attemptTime emptyPage 1), Sleep 10000,
          Probe ''scrapeHealthCheckDataFunc'' (attemptTime emptyPage 2), Sleep 10000,
          Probe ''scrapeHealthCheckDataFunc'' (attemptTime emptyPage 3)], Inr emptyData) \<and>
      healthCheckScrape emptyPage =
        (if elapsed (navigationTrace emptyPage @ [Probe ''checkHealthCheckTablesReadyFunc'' 100] @
                     expansionTrace emptyPage True) +
            attemptTime emptyPage 1 + attemptTime emptyPage 2 + attemptTime emptyPage 3 + 20000
            < 150000
         then Inr emptyData
         else Inl (Error
           ''Timeout: Health Check operation took too long (exceeded 150 seconds)''))"
    by blast
  then have "healthCheckSteps emptyPage =
     ([Probe ''searchFunc'' 100, Sleep 2000, Probe ''clickHealthCheckLinkFunc'' 100, Sleep 12000,
       Probe ''checkHealthCheckTablesReadyFunc'' 100,
       Probe ''expandHealthCheckSectionsFunc'' 100, Sleep 2000, Sleep 8000,
       Probe ''scrapeHealthCheckDataFunc'' 100, Sleep 10000,
       Probe ''scrapeHealthCheckDataFunc'' 100, Sleep 10000,
       Probe ''scrapeHealthCheckDataFunc'' 100], Inr emptyData) \<and>
   healthCheckScrape emptyPage = Inr emptyData"
    by (simp add: t nav ex elapsed_def)
  with h1 h5 a l n show ?thesis by blast
qed




section \<open>Properties of formatData and getFilename\<close>

text \<open>
  Claim C5, as stated, at the health-check module: two calls of \<^verbatim>\<open>formatData\<close> on the
  same raw data, one second apart, print different \<^verbatim>\<open>Generated:\<close> lines, so their
  outputs differ.
\<close>

theorem formatData_clock_counterexample:
  "healthCheckFormatData ''1/16/2026, 10:00:00 AM'' goodData \<noteq>
   healthCheckFormatData ''1/16/2026, 10:00:01 AM'' goodData"
  by (simp add: healthCheckFormatData_def)

text \<open>
  Claim C5, amended.  \<^verbatim>\<open>formatData\<close> of the health-check module returns (it does not
  throw on raw data of the shape \<^verbatim>\<open>scrape\<close> resolves with) and its output is a function
  of the raw data and of the clock reading printed in the second line: everything else
  depends on the raw data only, so two calls on the same raw data yield the same output
  exactly when they read the same clock string.  \<^verbatim>\<open>formatData\<close> of the sensitive-data
  module returns and does not read the clock: its output depends on the raw data only.
\<close>

theorem formatData_deterministic_up_to_clock:
  "(\<forall>now. healthCheckFormatData now d =
      Inr (''HEALTH CHECK REPORT'' @ newline @ ''Generated: '' @ now @ newline @
           healthCheckBody d)) \<and>
   (healthCheckFormatData now1 d = healthCheckFormatData now2 d \<longleftrightarrow> now1 = now2) \<and>
   sensitiveDataFormatData sd = Inr (sensitiveDataBody sd) \<and>
   (\<forall>nowISO sd'. sensitiveDataScrape nowISO = Inr sd' \<longrightarrow>
      sensitiveDataFormatData sd' =
        Inr (''SENSITIVE DATA REPORT'' @ newline @ replicate 80 (CHR ''='') @ newline @ newline @
             ''Status: not_implemented'' @ newline @
             ''Message: Sensitive Data module is not yet implemented'' @ newline @
             ''Timestamp: '' @ nowISO @ newline @ newline @
             ''This module is a placeholder and will be implemented in a future update.'' @
             newline))"
  by (auto simp: healthCheckFormatData_def sensitiveDataFormatData_def sensitiveDataScrape_def
        sensitiveDataBody_def)

theorem formatData_deterministic_up_to_clock_witness:
  "sensitiveDataScrape ''2026-01-16T10:00:00.000Z'' =
     Inr \<lparr>sdStatus = ''not_implemented'',
          sdMessage = ''Sensitive Data module is not yet implemented'',
          timestamp = ''2026-01-16T10:00:00.000Z''\<rparr> \<and>
   sensitiveDataFormatData
     \<lparr>sdStatus = ''not_implemented'',
      sdMessage = ''Sensitive Data module is not yet implemented'',
      timestamp = ''2026-01-16T10:00:00.000Z''\<rparr> =
     Inr (''SENSITIVE DATA REPORT'' @ newline @ replicate 80 (CHR ''='') @ newline @ newline @
          ''Status: not_implemented'' @ newline @
          ''Message: Sensitive Data module is not yet implemented'' @ newline @
          ''Timestamp: 2026-01-16T10:00:00.000Z'' @ newline @ newline @
          ''This module is a placeholder and will be implemented in a future update.'' @
          newline)"
proof -
  have s: "sensitiveDataScrape ''2026-01-16T10:00:00.000Z'' =
     Inr \<lparr>sdStatus = ''not_implemented'',
          sdMessage = ''Sensitive Data module is not yet implemented'',
          timestamp = ''2026-01-16T10:00:00.000Z''\<rparr>"
    by (simp add: sensitiveDataScrape_def)
  from formatData_deterministic_up_to_clock s show ?thesis
    by fastforce
qed

text \<open>
  Claim C6, as stated, at the sensitive-data module: it is registered, and its file name
  is \<^verbatim>\<open>sensitive-data\<close>, which has no ordinal prefix.
\<close>

theorem getFilename_ordinal_counterexample:
  "(''sensitive-data'', SensitiveDataModule) \<in> set registeredModules \<and>
   getFilenameOf SensitiveDataModule = ''sensitive-data'' \<and>
   ordinalPrefix (getFilenameOf SensitiveDataModule) = None"
  by code_simp

lemma registered_file_names:
  "map (\<lambda>(id', c). (id', getFilenameOf c, ordinalPrefix (getFilenameOf c))) registeredModules =
     [(''licenses'', ''1_licenses'', Some 1), (''profiles'', ''2_profiles'', Some 2),
      (''general-info'', ''3_general_info'', Some 3),
      (''health-check'', ''4_health_check'', Some 4), (''storage'', ''5_storage'', Some 5),
      (''sandboxes'', ''6_sandboxes'', Some 6),
      (''sharing-settings'', ''7_sharing_settings'', Some 7),
      (''sensitive-data'', ''sensitive-data'', None),
      (''login-history'', ''8_login_history'', Some 8)]"
  by code_simp

text \<open>
  Claim C6, amended.  \<^verbatim>\<open>getFilename\<close> takes no argument: an instance of a class has
  the file name of its class whatever its \<^verbatim>\<open>scrape\<close> does, and the orchestrator puts
  that name into the module's result whatever was scraped, on success and on failure.  For
  the nine registered modules the file names are the constants below: eight carry the
  ordinal of the canonical presentation order (1 licenses, 2 profiles, 3 general info,
  4 health check, 5 storage, 6 sandboxes, 7 sharing settings, 8 login history); the
  sensitive-data placeholder inherits the base method and is called
  \<^verbatim>\<open>sensitive-data\<close>, without an ordinal.
\<close>

theorem getFilename_constants:
  "map (\<lambda>(id', c). (id', getFilenameOf c, ordinalPrefix (getFilenameOf c))) registeredModules =
     [(''licenses'', ''1_licenses'', Some 1), (''profiles'', ''2_profiles'', Some 2),
      (''general-info'', ''3_general_info'', Some 3),
      (''health-check'', ''4_health_check'', Some 4), (''storage'', ''5_storage'', Some 5),
      (''sandboxes'', ''6_sandboxes'', Some 6),
      (''sharing-settings'', ''7_sharing_settings'', Some 7),
      (''sensitive-data'', ''sensitive-data'', None),
      (''login-history'', ''8_login_history'', Some 8)] \<and>
   (\<forall>id' m d formattedData payload.
      filename (successResult id' (m :: 'd module) d formattedData payload) = getFilename m) \<and>
   (\<forall>id' m msg. filename (failureResult id' (m :: 'd module) msg) = getFilename m) \<and>
   (\<forall>c scrape' formatData' getJsonPayload'.
      getFilename (moduleOfClass c scrape' formatData' getJsonPayload' :: 'd module) =
      getFilenameOf c)"
  by (simp only: registered_file_names)
     (simp add: successResult_def failureResult_def moduleOfClass_def)

end
